theory Spec2Isabelle
  imports Main "HOL-Library.Extended_Nat"
begin

section \<open>Data model\<close>

text \<open>
  The collaborative task board keeps three MongoDB collections (tasks, users, activities)
  behind Mongoose schemas (\<^verbatim>\<open>models/Task.js\<close>, \<^verbatim>\<open>models/Activity.js\<close>), serves them
  through the Express routes of \<^verbatim>\<open>routes/tasks.js\<close> and relays events between the
  connected sockets in \<^verbatim>\<open>socket/socketHandler.js\<close>.

  An ObjectId is an opaque identifier, compared in the source through its string form,
  that is by equality. A \<^verbatim>\<open>Date\<close> is its number of milliseconds since the epoch, which is
  also what the subtraction of two dates computes in JavaScript. A \<^verbatim>\<open>Number\<close> holding a
  counter (version, order) is the integer it denotes; it is a double, and the section
  on numbers gives its rounding.
\<close>

type_synonym object_id = nat
type_synonym time = int

text \<open>
  The fields of a user that the task routes and the socket handler read or write; the
  profile fields (email, avatar, password) are left out.
\<close>

record user =
  user_id :: object_id
  username :: string
  isOnline :: bool
  lastSeen :: "time option"

text \<open>
  The task schema. The timestamps \<^verbatim>\<open>createdAt\<close>/\<^verbatim>\<open>updatedAt\<close> that the ODM maintains and
  the array \<^verbatim>\<open>conflictVersions\<close>, which no route reads or writes by name, are left out.
  The defaults of the schema are \<open>status = todo\<close>, \<open>priority = medium\<close>, \<open>order = 0\<close>,
  \<open>isBeingEdited = false\<close>, \<open>editedBy = null\<close>, \<open>editStartTime = null\<close>, \<open>version = 1\<close>.
\<close>

record task =
  task_id :: object_id
  title :: string
  description :: string
  status :: string
  priority :: string
  assignedTo :: object_id
  createdBy :: object_id
  order :: int
  isBeingEdited :: bool
  editedBy :: "object_id option"
  editStartTime :: "time option"
  version :: int
  lastModifiedBy :: "object_id option"

text \<open>A small JSON value type for activity details and socket payloads.\<close>

datatype json =
    JNull
  | JBool bool
  | JNum int
  | JStr string
  | JId object_id
  | JArr "json list"
  | JObj "(string \<times> json) list"

record activity =
  action :: string
  act_taskId :: "object_id option"
  act_userId :: "object_id option"
  details :: "(string \<times> json) list"
  act_description :: string

record db =
  tasks :: "task list"
  users :: "user list"
  activities :: "activity list"

text \<open>
  A route parameter \<^verbatim>\<open>:id\<close> is a string; \<^verbatim>\<open>mongoose.Types.ObjectId.isValid\<close> decides
  whether it denotes an ObjectId. The parameter is modelled after that parse.
\<close>

datatype id_param = Malformed | Oid object_id

text \<open>
  The replies of the routes. Each failure is one \<^verbatim>\<open>res.status(..).json(..)\<close> of the
  source; \<open>status_code\<close> gives its HTTP status.
\<close>

datatype failure =
    Invalid_Task_ID
  | Task_Not_Found
  | Title_And_Assignee_Required
  | Title_Not_Unique
  | Assigned_User_Not_Found
  | Validation_Failed
  | Edit_Conflict string task
  | Lock_Conflict string
  | Not_Authorized
  | No_Users_Available
  | Tasks_Not_Array
  | Server_Error

fun status_code :: "failure \<Rightarrow> nat" where
  "status_code Invalid_Task_ID = 400"
| "status_code Task_Not_Found = 404"
| "status_code Title_And_Assignee_Required = 400"
| "status_code Title_Not_Unique = 400"
| "status_code Assigned_User_Not_Found = 400"
| "status_code Validation_Failed = 400"
| "status_code (Edit_Conflict n t) = 409"
| "status_code (Lock_Conflict n) = 409"
| "status_code Not_Authorized = 403"
| "status_code No_Users_Available = 400"
| "status_code Tasks_Not_Array = 400"
| "status_code Server_Error = 500"

text \<open>
  The body of the 409 reply of the update route carries \<^verbatim>\<open>conflict: true\<close>; no other
  reply has that flag.
\<close>

fun conflict_flag :: "failure \<Rightarrow> bool" where
  "conflict_flag (Edit_Conflict n t) = True"
| "conflict_flag f = False"

datatype success =
    Task_Created task
  | Task_Updated task
  | Task_Deleted
  | Task_Smart_Assigned task string enat
  | Edit_Session_Started
  | Edit_Session_Ended
  | Tasks_Reordered

section \<open>Numbers\<close>

text \<open>
  A \<^verbatim>\<open>Number\<close> is an IEEE double. Every integer of magnitude up to \<open>2 ^ 53\<close> is a
  double; a larger integer is rounded to the nearest integer that has a significand of
  53 bits, a tie going to the even significand. That is how the integer literal of a
  request body is read, and how the sum of two doubles is formed. Fractions, and
  integers beyond the largest finite double (about \<open>1.8 * 10 ^ 308\<close>), are outside
  the model.
\<close>

fun bit_length :: "nat \<Rightarrow> nat" where
  "bit_length n = (if n = 0 then 0 else Suc (bit_length (n div 2)))"

declare bit_length.simps [simp del]

definition nearest_double :: "int \<Rightarrow> int" where
  "nearest_double n =
     (let a = nat \<bar>n\<bar> in
      if a \<le> 2 ^ 53 then n
      else (let e = bit_length a - 53;
                q = a div 2 ^ e;
                r = a mod 2 ^ e;
                m = (if 2 ^ e < 2 * r \<or> (2 * r = 2 ^ e \<and> odd q) then q + 1 else q)
            in sgn n * int (m * 2 ^ e)))"

text \<open>
  \<^verbatim>\<open>x + 1\<close> and \<^verbatim>\<open>x += 1\<close> on a Number that holds an integer; \<^verbatim>\<open>$inc\<close> by 1 on a
  stored double is the same sum.
\<close>

definition js_add1 :: "int \<Rightarrow> int" where
  "js_add1 v = nearest_double (v + 1)"

text \<open>The integers whose successor is formed without rounding.\<close>

definition exact_range :: "int \<Rightarrow> bool" where
  "exact_range v = (- (2 ^ 53) \<le> v \<and> v < 2 ^ 53)"

section \<open>Store operations\<close>

text \<open>\<^verbatim>\<open>Task.findById\<close> and \<^verbatim>\<open>User.findById\<close>.\<close>

definition findTask :: "object_id \<Rightarrow> task list \<Rightarrow> task option" where
  "findTask i ts = find (\<lambda>t. task_id t = i) ts"

definition findUser :: "object_id \<Rightarrow> user list \<Rightarrow> user option" where
  "findUser i us = find (\<lambda>u. user_id u = i) us"

text \<open>
  \<^verbatim>\<open>task.save()\<close> of a document that was loaded from the collection writes it back
  under its \<^verbatim>\<open>_id\<close>.
\<close>

fun save_task :: "task \<Rightarrow> task list \<Rightarrow> task list" where
  "save_task t [] = []"
| "save_task t (x # xs) = (if task_id x = task_id t then t # xs else x # save_task t xs)"

text \<open>
  The name shown in a conflict reply:
  \<^verbatim>\<open>editedBy ? editedBy.username : 'Unknown user'\<close>.
\<close>

definition editor_name :: "object_id \<Rightarrow> user list \<Rightarrow> string" where
  "editor_name i us = (case findUser i us of Some u \<Rightarrow> username u | None \<Rightarrow> ''Unknown user'')"

section \<open>Strings\<close>

text \<open>
  Strings are sequences of 8-bit characters here, so titles and names are taken to be
  ASCII: \<^verbatim>\<open>trim\<close> removes the ASCII white space and \<^verbatim>\<open>toLowerCase\<close> folds the letters
  A to Z.
\<close>

definition is_space :: "char \<Rightarrow> bool" where
  "is_space c = (c \<in> set [CHR '' '', CHR 0x09, CHR 0x0A, CHR 0x0B, CHR 0x0C, CHR 0x0D])"

definition trim :: "string \<Rightarrow> string" where
  "trim s = rev (dropWhile is_space (rev (dropWhile is_space s)))"

definition lower_char :: "char \<Rightarrow> char" where
  "lower_char c =
     (let n = (of_char c :: nat) in if 65 \<le> n \<and> n \<le> 90 then char_of (n + 32) else c)"

definition toLowerCase :: "string \<Rightarrow> string" where
  "toLowerCase s = map lower_char s"

text \<open>\<^verbatim>\<open>s.replace('-', ' ')\<close> replaces the first hyphen only.\<close>

fun replace_dash :: "string \<Rightarrow> string" where
  "replace_dash [] = []"
| "replace_dash (c # cs) = (if c = CHR ''-'' then CHR '' '' # cs else c # replace_dash cs)"

text \<open>The decimal form of a count inside a template literal.\<close>

fun show_nat :: "nat \<Rightarrow> string" where
  "show_nat n =
     (if n < 10 then [char_of (48 + n)] else show_nat (n div 10) @ [char_of (48 + n mod 10)])"

declare show_nat.simps [simp del]

definition show_count :: "enat \<Rightarrow> string" where
  "show_count c = (case c of enat n \<Rightarrow> show_nat n | \<infinity> \<Rightarrow> ''Infinity'')"

definition quoted :: "string \<Rightarrow> string" where
  "quoted s = [CHR 0x22] @ s @ [CHR 0x22]"

section \<open>Schema validation\<close>

text \<open>
  The validators of the task schema: \<^verbatim>\<open>title\<close> is required, at most 100 characters and
  not a column name; \<^verbatim>\<open>description\<close> is at most 500 characters; \<^verbatim>\<open>status\<close> and
  \<^verbatim>\<open>priority\<close> are enumerations. The schema trims \<^verbatim>\<open>title\<close> and \<^verbatim>\<open>description\<close> when
  they are set.
\<close>

definition forbiddenNames :: "string list" where
  "forbiddenNames = [''todo'', ''in progress'', ''done'', ''to do'', ''in-progress'']"

definition valid_title :: "string \<Rightarrow> bool" where
  "valid_title s = (s \<noteq> [] \<and> length s \<le> 100 \<and> toLowerCase s \<notin> set forbiddenNames)"

definition valid_description :: "string \<Rightarrow> bool" where
  "valid_description s = (length s \<le> 500)"

definition valid_status :: "string \<Rightarrow> bool" where
  "valid_status s = (s \<in> set [''todo'', ''in-progress'', ''done''])"

definition valid_priority :: "string \<Rightarrow> bool" where
  "valid_priority s = (s \<in> set [''low'', ''medium'', ''high''])"

text \<open>
  \<^verbatim>\<open>save()\<close> validates every path of the document, of a new one and of one loaded
  from the collection alike, and throws a ValidationError when a validator fails.
\<close>

definition validate_doc :: "task \<Rightarrow> bool" where
  "validate_doc t =
     (valid_title (title t) \<and> valid_description (description t) \<and>
      valid_status (status t) \<and> valid_priority (priority t))"

text \<open>
  The activity schema requires \<^verbatim>\<open>action\<close> (an enumeration), \<^verbatim>\<open>taskId\<close>, \<^verbatim>\<open>userId\<close> and
  \<^verbatim>\<open>description\<close>. The identifier and timestamp of an activity are left out.
\<close>

definition activity_actions :: "string list" where
  "activity_actions =
     [''create'', ''update'', ''delete'', ''assign'', ''move'', ''status_change'', ''smart_assign'']"

definition valid_activity :: "activity \<Rightarrow> bool" where
  "valid_activity a =
     (action a \<in> set activity_actions \<and> act_taskId a \<noteq> None \<and> act_userId a \<noteq> None \<and>
      act_description a \<noteq> [])"

section \<open>Edit locks\<close>

text \<open>
  \<^verbatim>\<open>const editTimeout = 5 * 60 * 1000\<close>, in milliseconds.
\<close>

definition editTimeout :: int where
  "editTimeout = 5 * 60 * 1000"

text \<open>
  \<^verbatim>\<open>new Date() - task.editStartTime\<close>: a \<^verbatim>\<open>null\<close> start time converts to 0.
\<close>

definition lock_age :: "time \<Rightarrow> task \<Rightarrow> int" where
  "lock_age now t = (case editStartTime t of None \<Rightarrow> now | Some s \<Rightarrow> now - s)"

text \<open>
  The guard that the update route and the start-edit route both write out:
  \<^verbatim>\<open>task.isBeingEdited && task.editedBy && task.editedBy.toString() !== req.user._id.toString()\<close>
  and, nested in it, \<^verbatim>\<open>new Date() - task.editStartTime < editTimeout\<close>.
  The result is the holder of the lock when both tests pass.
\<close>

definition active_foreign_editor :: "time \<Rightarrow> user \<Rightarrow> task \<Rightarrow> object_id option" where
  "active_foreign_editor now u t =
     (case editedBy t of
        None \<Rightarrow> None
      | Some e \<Rightarrow>
          if isBeingEdited t \<and> e \<noteq> user_id u
          then (if lock_age now t < editTimeout then Some e else None)
          else None)"

text \<open>
  The writes of the start-edit route:
  \<^verbatim>\<open>task.isBeingEdited = true; task.editedBy = req.user._id; task.editStartTime = new Date()\<close>.
\<close>

definition take_lock :: "time \<Rightarrow> user \<Rightarrow> task \<Rightarrow> task" where
  "take_lock now u t =
     t\<lparr>isBeingEdited := True, editedBy := Some (user_id u), editStartTime := Some now\<rparr>"

text \<open>
  \<^verbatim>\<open>router.post('/:id/start-edit')\<close>. An error of \<^verbatim>\<open>task.save()\<close>, which validates the
  whole document, is answered with 500, and nothing is written.
\<close>

definition start_edit :: "time \<Rightarrow> user \<Rightarrow> id_param \<Rightarrow> db \<Rightarrow> (failure + success) \<times> db" where
  "start_edit now u p d =
     (case p of
        Malformed \<Rightarrow> (Inl Invalid_Task_ID, d)
      | Oid i \<Rightarrow>
          (case findTask i (tasks d) of
             None \<Rightarrow> (Inl Task_Not_Found, d)
           | Some t \<Rightarrow>
               (case active_foreign_editor now u t of
                  Some e \<Rightarrow> (Inl (Lock_Conflict (editor_name e (users d))), d)
                | None \<Rightarrow>
                    if \<not> validate_doc (take_lock now u t) then (Inl Server_Error, d)
                    else (Inr Edit_Session_Started,
                          d\<lparr>tasks := save_task (take_lock now u t) (tasks d)\<rparr>))))"

text \<open>
  Clearing the lock fields, as the end-edit route and the cleanup of stale sessions do:
  \<^verbatim>\<open>isBeingEdited = false, editedBy = null, editStartTime = null\<close>.
\<close>

definition free_task :: "task \<Rightarrow> task" where
  "free_task t = t\<lparr>isBeingEdited := False, editedBy := None, editStartTime := None\<rparr>"

text \<open>
  \<^verbatim>\<open>router.post('/:id/end-edit')\<close>. Only the holder's request saves, and an error of
  that save is answered with 500, the lock staying as it was.
\<close>

definition end_edit :: "user \<Rightarrow> id_param \<Rightarrow> db \<Rightarrow> (failure + success) \<times> db" where
  "end_edit u p d =
     (case p of
        Malformed \<Rightarrow> (Inl Invalid_Task_ID, d)
      | Oid i \<Rightarrow>
          (case findTask i (tasks d) of
             None \<Rightarrow> (Inl Task_Not_Found, d)
           | Some t \<Rightarrow>
               (if editedBy t = Some (user_id u)
                then (if \<not> validate_doc (free_task t) then (Inl Server_Error, d)
                      else (Inr Edit_Session_Ended,
                            d\<lparr>tasks := save_task (free_task t) (tasks d)\<rparr>))
                else (Inr Edit_Session_Ended, d))))"

section \<open>Activity log\<close>

text \<open>
  \<^verbatim>\<open>logActivity\<close>: builds the activity and saves it; an error of the save is caught,
  written to the console and not passed on, so the log is then left as it was. The
  schema is strict: of the details passed, the entries under a key of the schema are
  kept and the others dropped.
\<close>

definition details_paths :: "string list" where
  "details_paths =
     [''field'', ''oldValue'', ''newValue'', ''previousStatus'', ''newStatus'',
      ''previousAssignee'', ''newAssignee'']"


definition logActivity ::
  "string \<Rightarrow> object_id option \<Rightarrow> object_id option \<Rightarrow> (string \<times> json) list \<Rightarrow> string \<Rightarrow>
   activity list \<Rightarrow> activity list" where
  "logActivity act tid uid det desc acts =
     (let a = \<lparr>action = act, act_taskId = tid, act_userId = uid,
                details = filter (\<lambda>kv. fst kv \<in> set details_paths) det,
                act_description = desc\<rparr>
      in if valid_activity a then acts @ [a] else acts)"

section \<open>Creating and deleting tasks\<close>

text \<open>
  The body of a create request. \<^verbatim>\<open>assignedTo\<close> is a string that \<^verbatim>\<open>User.findById\<close> casts
  to an ObjectId; the cast of a malformed one throws, which the handler answers with 500.
  An absent key and an empty string are both falsy and both \<open>None\<close> here.
\<close>

record create_body =
  c_title :: "string option"
  c_description :: "string option"
  c_assignedTo :: "id_param option"
  c_priority :: "string option"

text \<open>
  \<^verbatim>\<open>Task.findOne({ status: 'todo' }).sort({ order: -1 })\<close> and the order that follows it.
\<close>

definition next_order :: "task list \<Rightarrow> int" where
  "next_order ts =
     (case map order (filter (\<lambda>t. status t = ''todo'') ts) of
        [] \<Rightarrow> 0
      | x # xs \<Rightarrow> js_add1 (fold max xs x))"

text \<open>
  \<^verbatim>\<open>router.post('/')\<close>. The identifier of the new document is generated by the driver
  and given here as \<open>new_id\<close>; were it already in the collection, the insert would fail
  with the duplicate-key code 11000, which the handler answers like a duplicate title.
\<close>

definition create_task ::
  "object_id \<Rightarrow> user \<Rightarrow> create_body \<Rightarrow> db \<Rightarrow> (failure + success) \<times> db" where
  "create_task new_id u b d =
     (case (c_title b, c_assignedTo b) of
        (None, _) \<Rightarrow> (Inl Title_And_Assignee_Required, d)
      | (Some ttl, None) \<Rightarrow> (Inl Title_And_Assignee_Required, d)
      | (Some ttl, Some a) \<Rightarrow>
          if ttl = [] then (Inl Title_And_Assignee_Required, d)
          else if \<exists>x \<in> set (tasks d). title x = trim ttl then (Inl Title_Not_Unique, d)
          else (case a of
                  Malformed \<Rightarrow> (Inl Server_Error, d)
                | Oid aid \<Rightarrow>
                   (case findUser aid (users d) of
                      None \<Rightarrow> (Inl Assigned_User_Not_Found, d)
                    | Some au \<Rightarrow>
                       (let t = \<lparr>task_id = new_id,
                                  title = trim ttl,
                                  description =
                                    (case c_description b of None \<Rightarrow> [] | Some s \<Rightarrow> trim s),
                                  status = ''todo'',
                                  priority =
                                    (case c_priority b of None \<Rightarrow> ''medium'' | Some p \<Rightarrow> p),
                                  assignedTo = aid,
                                  createdBy = user_id u,
                                  order = next_order (tasks d),
                                  isBeingEdited = False,
                                  editedBy = None,
                                  editStartTime = None,
                                  version = 1,
                                  lastModifiedBy = Some (user_id u)\<rparr>
                        in if \<not> validate_doc t then (Inl Validation_Failed, d)
                           else if findTask new_id (tasks d) \<noteq> None then (Inl Title_Not_Unique, d)
                           else (Inr (Task_Created t),
                                 d\<lparr>tasks := tasks d @ [t],
                                   activities :=
                                     logActivity ''create'' (Some new_id) (Some (user_id u))
                                       [(''assignedTo'', JId aid)]
                                       (username u @ '' created task '' @ quoted (title t))
                                       (activities d)\<rparr>)))))"

text \<open>\<^verbatim>\<open>Task.findByIdAndDelete\<close>\<close>

fun remove_task :: "object_id \<Rightarrow> task list \<Rightarrow> task list" where
  "remove_task i [] = []"
| "remove_task i (x # xs) = (if task_id x = i then xs else x # remove_task i xs)"

text \<open>\<^verbatim>\<open>router.delete('/:id')\<close>\<close>

definition delete_task :: "user \<Rightarrow> id_param \<Rightarrow> db \<Rightarrow> (failure + success) \<times> db" where
  "delete_task u p d =
     (case p of
        Malformed \<Rightarrow> (Inl Invalid_Task_ID, d)
      | Oid i \<Rightarrow>
          (case findTask i (tasks d) of
             None \<Rightarrow> (Inl Task_Not_Found, d)
           | Some t \<Rightarrow>
               if createdBy t \<noteq> user_id u \<and> assignedTo t \<noteq> user_id u
               then (Inl Not_Authorized, d)
               else (Inr Task_Deleted,
                     d\<lparr>tasks := remove_task i (tasks d),
                       activities :=
                         logActivity ''delete'' (Some (task_id t)) (Some (user_id u))
                           [(''title'', JStr (title t))]
                           (username u @ '' deleted task '' @ quoted (title t))
                           (activities d)\<rparr>)))"

section \<open>Updating a task\<close>

text \<open>
  The body of an update request is a JSON object; it is the list of its entries, in the
  order of its keys, each value already of the type its schema path casts to.
  \<open>Set_other k\<close> is an entry under a key \<open>k\<close> that is no path of the schema: the
  assignment makes it a property of the document object of its own, which is not
  stored. Under the keys \<^verbatim>\<open>save\<close> and \<^verbatim>\<open>populate\<close> that property hides the method that
  the route calls afterwards; keys that name further members of the ODM's document
  class are outside the model.
\<close>

datatype field_update =
    Set_id object_id
  | Set_createdAt time
  | Set_updatedAt time
  | Set_title string
  | Set_description string
  | Set_status string
  | Set_priority string
  | Set_assignedTo object_id
  | Set_createdBy object_id
  | Set_order int
  | Set_isBeingEdited bool
  | Set_editedBy "object_id option"
  | Set_editStartTime "time option"
  | Set_version int
  | Set_lastModifiedBy object_id
  | Set_other string json

fun key_of :: "field_update \<Rightarrow> string" where
  "key_of (Set_id v) = ''_id''"
| "key_of (Set_createdAt v) = ''createdAt''"
| "key_of (Set_updatedAt v) = ''updatedAt''"
| "key_of (Set_title v) = ''title''"
| "key_of (Set_description v) = ''description''"
| "key_of (Set_status v) = ''status''"
| "key_of (Set_priority v) = ''priority''"
| "key_of (Set_assignedTo v) = ''assignedTo''"
| "key_of (Set_createdBy v) = ''createdBy''"
| "key_of (Set_order v) = ''order''"
| "key_of (Set_isBeingEdited v) = ''isBeingEdited''"
| "key_of (Set_editedBy v) = ''editedBy''"
| "key_of (Set_editStartTime v) = ''editStartTime''"
| "key_of (Set_version v) = ''version''"
| "key_of (Set_lastModifiedBy v) = ''lastModifiedBy''"
| "key_of (Set_other k v) = k"

text \<open>
  One round of
  \<^verbatim>\<open>if (key !== '_id' && key !== 'createdAt' && key !== 'updatedAt') task[key] = updates[key]\<close>.
\<close>

fun assign :: "task \<Rightarrow> field_update \<Rightarrow> task" where
  "assign t (Set_id v) = t"
| "assign t (Set_createdAt v) = t"
| "assign t (Set_updatedAt v) = t"
| "assign t (Set_title v) = t\<lparr>title := trim v\<rparr>"
| "assign t (Set_description v) = t\<lparr>description := trim v\<rparr>"
| "assign t (Set_status v) = t\<lparr>status := v\<rparr>"
| "assign t (Set_priority v) = t\<lparr>priority := v\<rparr>"
| "assign t (Set_assignedTo v) = t\<lparr>assignedTo := v\<rparr>"
| "assign t (Set_createdBy v) = t\<lparr>createdBy := v\<rparr>"
| "assign t (Set_order v) = t\<lparr>order := nearest_double v\<rparr>"
| "assign t (Set_isBeingEdited v) = t\<lparr>isBeingEdited := v\<rparr>"
| "assign t (Set_editedBy v) = t\<lparr>editedBy := v\<rparr>"
| "assign t (Set_editStartTime v) = t\<lparr>editStartTime := v\<rparr>"
| "assign t (Set_version v) = t\<lparr>version := nearest_double v\<rparr>"
| "assign t (Set_lastModifiedBy v) = t\<lparr>lastModifiedBy := Some v\<rparr>"
| "assign t (Set_other k v) = t"

text \<open>Whether the body hides \<^verbatim>\<open>task.save\<close>, or \<^verbatim>\<open>task.populate\<close>, under a value.\<close>

fun hides_save :: "field_update \<Rightarrow> bool" where
  "hides_save (Set_other k v) = (k = ''save'')"
| "hides_save x = False"

fun hides_populate :: "field_update \<Rightarrow> bool" where
  "hides_populate (Set_other k v) = (k = ''populate'')"
| "hides_populate x = False"

text \<open>
  The title check of the update route:
  \<^verbatim>\<open>updates.title && updates.title !== task.title\<close>, then a search for another task
  whose title is the trimmed new one.
\<close>

fun title_of :: "field_update list \<Rightarrow> string option" where
  "title_of [] = None"
| "title_of (Set_title v # us) = (case title_of us of None \<Rightarrow> Some v | Some w \<Rightarrow> Some w)"
| "title_of (u # us) = title_of us"

definition title_taken :: "object_id \<Rightarrow> task \<Rightarrow> field_update list \<Rightarrow> task list \<Rightarrow> bool" where
  "title_taken i t ups ts =
     (case title_of ups of
        None \<Rightarrow> False
      | Some v \<Rightarrow> v \<noteq> [] \<and> v \<noteq> title t \<and> (\<exists>x \<in> set ts. title x = trim v \<and> task_id x \<noteq> i))"

text \<open>\<^verbatim>\<open>oldUser?.username || 'Unknown'\<close>\<close>

definition name_or_unknown :: "object_id \<Rightarrow> user list \<Rightarrow> string" where
  "name_or_unknown i us =
     (case findUser i us of
        None \<Rightarrow> ''Unknown''
      | Some x \<Rightarrow> if username x = [] then ''Unknown'' else username x)"

text \<open>
  One round of the loop over \<^verbatim>\<open>Object.entries(updates)\<close> that logs the changed fields.
  \<open>prev\<close> is the task as loaded, the source of \<^verbatim>\<open>previousValues\<close>, which has the keys
  title, description, status, priority and assignedTo only. The new value is compared
  as it came in the request.
\<close>

fun log_change ::
  "user \<Rightarrow> task \<Rightarrow> user list \<Rightarrow> activity list \<Rightarrow> field_update \<Rightarrow> activity list" where
  "log_change u prev us acts (Set_title v) =
     (if title prev \<noteq> v
      then logActivity ''update'' (Some (task_id prev)) (Some (user_id u))
             [(''field'', JStr ''title''), (''oldValue'', JStr (title prev)),
              (''newValue'', JStr v)]
             (username u @ '' changed title from '' @ quoted (title prev) @ '' to '' @ quoted v)
             acts
      else acts)"
| "log_change u prev us acts (Set_description v) =
     (if description prev \<noteq> v
      then logActivity ''update'' (Some (task_id prev)) (Some (user_id u))
             [(''field'', JStr ''description''), (''oldValue'', JStr (description prev)),
              (''newValue'', JStr v)]
             (username u @ '' updated description'')
             acts
      else acts)"
| "log_change u prev us acts (Set_status v) =
     (if status prev \<noteq> v
      then logActivity ''move'' (Some (task_id prev)) (Some (user_id u))
             [(''field'', JStr ''status''), (''oldValue'', JStr (status prev)),
              (''newValue'', JStr v), (''previousStatus'', JStr (status prev)),
              (''newStatus'', JStr v)]
             (username u @ '' moved task to '' @ replace_dash v)
             acts
      else acts)"
| "log_change u prev us acts (Set_priority v) =
     (if priority prev \<noteq> v
      then logActivity ''update'' (Some (task_id prev)) (Some (user_id u))
             [(''field'', JStr ''priority''), (''oldValue'', JStr (priority prev)),
              (''newValue'', JStr v)]
             (username u @ '' changed priority to '' @ v)
             acts
      else acts)"
| "log_change u prev us acts (Set_assignedTo v) =
     (if assignedTo prev \<noteq> v
      then logActivity ''assign'' (Some (task_id prev)) (Some (user_id u))
             [(''field'', JStr ''assignedTo''), (''oldValue'', JId (assignedTo prev)),
              (''newValue'', JId v), (''previousAssignee'', JId (assignedTo prev)),
              (''newAssignee'', JId v)]
             (username u @ '' reassigned task from '' @ name_or_unknown (assignedTo prev) us @
              '' to '' @ name_or_unknown v us)
             acts
      else acts)"
| "log_change u prev us acts other = acts"

text \<open>
  The writes that follow the loop over the keys:
  \<^verbatim>\<open>task.lastModifiedBy = req.user._id; task.version += 1; task.isBeingEdited = false;
  task.editedBy = null; task.editStartTime = null\<close>.
\<close>

definition finish_update :: "user \<Rightarrow> task \<Rightarrow> task" where
  "finish_update u t =
     t\<lparr>lastModifiedBy := Some (user_id u),
       version := js_add1 (version t),
       isBeingEdited := False,
       editedBy := None,
       editStartTime := None\<rparr>"

text \<open>
  \<^verbatim>\<open>router.put('/:id')\<close>. A value under \<^verbatim>\<open>save\<close> makes the call of \<^verbatim>\<open>task.save()\<close> throw
  a TypeError, which the handler answers with 500 before anything is written; a
  ValidationError of the save is answered with 400; a value under \<^verbatim>\<open>populate\<close> makes
  the call that follows the save throw, so the task is written, nothing is logged and
  the reply is 500.
\<close>

definition update_task ::
  "time \<Rightarrow> user \<Rightarrow> id_param \<Rightarrow> field_update list \<Rightarrow> db \<Rightarrow> (failure + success) \<times> db" where
  "update_task now u p ups d =
     (case p of
        Malformed \<Rightarrow> (Inl Invalid_Task_ID, d)
      | Oid i \<Rightarrow>
          (case findTask i (tasks d) of
             None \<Rightarrow> (Inl Task_Not_Found, d)
           | Some t \<Rightarrow>
               (case active_foreign_editor now u t of
                  Some e \<Rightarrow> (Inl (Edit_Conflict (editor_name e (users d)) t), d)
                | None \<Rightarrow>
                    if title_taken i t ups (tasks d) then (Inl Title_Not_Unique, d)
                    else (let t' = finish_update u (foldl assign t ups)
                          in if list_ex hides_save ups then (Inl Server_Error, d)
                             else if \<not> validate_doc t' then (Inl Validation_Failed, d)
                             else if list_ex hides_populate ups
                             then (Inl Server_Error, d\<lparr>tasks := save_task t' (tasks d)\<rparr>)
                             else (Inr (Task_Updated t'),
                                   d\<lparr>tasks := save_task t' (tasks d),
                                     activities :=
                                       foldl (log_change u t (users d)) (activities d) ups\<rparr>)))))"

section \<open>Smart assignment\<close>

text \<open>
  \<^verbatim>\<open>getTaskCounts\<close>: the aggregation keeps the tasks whose status is todo or
  in-progress, groups them by assignee and counts each group; the result is the object
  of the counts by user id, with no entry for a user who has none.
\<close>

definition count_in :: "(object_id \<rightharpoonup> nat) \<Rightarrow> task \<Rightarrow> (object_id \<rightharpoonup> nat)" where
  "count_in m t = m(assignedTo t \<mapsto> (case m (assignedTo t) of None \<Rightarrow> 1 | Some c \<Rightarrow> Suc c))"

definition getTaskCounts :: "task list \<Rightarrow> (object_id \<rightharpoonup> nat)" where
  "getTaskCounts ts =
     foldl count_in Map.empty (filter (\<lambda>t. status t \<in> set [''todo'', ''in-progress'']) ts)"

text \<open>
  The loop that finds the user with the fewest active tasks;
  \<^verbatim>\<open>minTasks\<close> starts at \<^verbatim>\<open>Infinity\<close> and \<^verbatim>\<open>selectedUser\<close> at \<^verbatim>\<open>null\<close>.
\<close>

definition userTaskCount :: "(object_id \<rightharpoonup> nat) \<Rightarrow> user \<Rightarrow> nat" where
  "userTaskCount taskCounts x = (case taskCounts (user_id x) of None \<Rightarrow> 0 | Some c \<Rightarrow> c)"

definition consider_user ::
  "(object_id \<rightharpoonup> nat) \<Rightarrow> enat \<times> user option \<Rightarrow> user \<Rightarrow> enat \<times> user option" where
  "consider_user taskCounts acc x =
     (if enat (userTaskCount taskCounts x) < fst acc
      then (enat (userTaskCount taskCounts x), Some x)
      else acc)"

definition selectAssignee :: "user list \<Rightarrow> (object_id \<rightharpoonup> nat) \<Rightarrow> enat \<times> user option" where
  "selectAssignee us taskCounts = foldl (consider_user taskCounts) (\<infinity>, None) us"

text \<open>
  \<^verbatim>\<open>router.post('/:id/smart-assign')\<close>. An error of the save is answered with 500, and
  nothing is written or logged.
\<close>

definition smart_assign :: "user \<Rightarrow> id_param \<Rightarrow> db \<Rightarrow> (failure + success) \<times> db" where
  "smart_assign u p d =
     (case p of
        Malformed \<Rightarrow> (Inl Invalid_Task_ID, d)
      | Oid i \<Rightarrow>
          (case findTask i (tasks d) of
             None \<Rightarrow> (Inl Task_Not_Found, d)
           | Some t \<Rightarrow>
               (case selectAssignee (users d) (getTaskCounts (tasks d)) of
                  (minTasks, None) \<Rightarrow> (Inl No_Users_Available, d)
                | (minTasks, Some sel) \<Rightarrow>
                    (let t' = t\<lparr>assignedTo := user_id sel,
                                 lastModifiedBy := Some (user_id u),
                                 version := js_add1 (version t)\<rparr>
                     in if \<not> validate_doc t' then (Inl Server_Error, d)
                        else
                        (Inr (Task_Smart_Assigned t' (username sel) minTasks),
                         d\<lparr>tasks := save_task t' (tasks d),
                           activities :=
                             logActivity ''smart_assign'' (Some (task_id t')) (Some (user_id u))
                               [(''previousAssignee'', JId (assignedTo t)),
                                (''newAssignee'', JId (user_id sel)),
                                (''taskCount'',
                                 (case minTasks of enat n \<Rightarrow> JNum (int n) | \<infinity> \<Rightarrow> JNull))]
                               (username u @ '' smart-assigned task to '' @ username sel @
                                '' ('' @ show_count minTasks @ '' active tasks)'')
                               (activities d)\<rparr>)))))"

section \<open>Reordering\<close>

text \<open>
  An entry \<^verbatim>\<open>{id, status, order}\<close> of a reorder request. The bulk write casts every
  filter before it writes anything, so one malformed id rejects the whole batch.
\<close>

record reorder_item =
  r_id :: id_param
  r_status :: string
  r_order :: int

text \<open>
  One \<^verbatim>\<open>updateOne\<close> of the batch: the document with the given id gets the status, the
  order and the modifier of the request and \<^verbatim>\<open>$inc: { version: 1 }\<close>; no document
  matching is no error. Bulk writes run no validators.
\<close>

fun updateOne :: "object_id \<Rightarrow> (task \<Rightarrow> task) \<Rightarrow> task list \<Rightarrow> task list" where
  "updateOne i f [] = []"
| "updateOne i f (x # xs) = (if task_id x = i then f x # xs else x # updateOne i f xs)"

definition reorder_write :: "user \<Rightarrow> reorder_item \<Rightarrow> task \<Rightarrow> task" where
  "reorder_write u it t =
     t\<lparr>status := r_status it,
       order := nearest_double (r_order it),
       lastModifiedBy := Some (user_id u),
       version := js_add1 (version t)\<rparr>"

definition reorder_op :: "user \<Rightarrow> task list \<Rightarrow> reorder_item \<Rightarrow> task list" where
  "reorder_op u ts it =
     (case r_id it of Malformed \<Rightarrow> ts | Oid i \<Rightarrow> updateOne i (reorder_write u it) ts)"

text \<open>
  \<^verbatim>\<open>router.post('/reorder')\<close>. The body's \<^verbatim>\<open>tasks\<close> is \<open>None\<close> when it is not an array.
  Whether the driver rejects an empty batch depends on its version, which these sources
  do not fix: \<open>empty_batch_fails\<close> says so.
\<close>

definition reorder ::
  "bool \<Rightarrow> user \<Rightarrow> reorder_item list option \<Rightarrow> db \<Rightarrow> (failure + success) \<times> db" where
  "reorder empty_batch_fails u body d =
     (case body of
        None \<Rightarrow> (Inl Tasks_Not_Array, d)
      | Some items \<Rightarrow>
          if (\<exists>it \<in> set items. r_id it = Malformed) \<or> (items = [] \<and> empty_batch_fails)
          then (Inl Server_Error, d)
          else (Inr Tasks_Reordered,
                d\<lparr>tasks := foldl (reorder_op u) (tasks d) items,
                  activities :=
                    logActivity ''move'' None (Some (user_id u))
                      [(''taskCount'', JNum (int (length items)))]
                      (username u @ '' reordered '' @ show_nat (length items) @ '' tasks'')
                      (activities d)\<rparr>))"

section \<open>Socket handler\<close>

text \<open>
  A connected socket, after the authentication middleware has attached the user to it.
\<close>

record socket =
  socket_id :: nat
  socket_user :: user

text \<open>
  The three ways the handler sends: \<^verbatim>\<open>io.emit\<close> reaches every connected socket,
  \<^verbatim>\<open>socket.broadcast.emit\<close> every connected socket but the sending one, and
  \<^verbatim>\<open>socket.emit\<close> the socket itself.
\<close>

datatype target = Everyone | Others nat | Only nat

record emission =
  target_of :: target
  event :: string
  payload :: json

fun receives :: "target \<Rightarrow> nat \<Rightarrow> bool" where
  "receives Everyone r = True"
| "receives (Others s) r = (r \<noteq> s)"
| "receives (Only s) r = (r = s)"

text \<open>The sockets, out of the connected ones, that an emission is delivered to.\<close>

definition recipients :: "socket list \<Rightarrow> emission \<Rightarrow> nat list" where
  "recipients conns e = filter (receives (target_of e)) (map socket_id conns)"

text \<open>
  The server: the database, the connected sockets and the map \<^verbatim>\<open>connectedUsers\<close> from a
  user id to the socket id and user of its connection, in insertion order.
\<close>

record server =
  store :: db
  connections :: "socket list"
  connectedUsers :: "(object_id \<times> nat \<times> user) list"

fun map_set :: "'k \<Rightarrow> 'v \<Rightarrow> ('k \<times> 'v) list \<Rightarrow> ('k \<times> 'v) list" where
  "map_set k v [] = [(k, v)]"
| "map_set k v ((k', v') # kvs) = (if k' = k then (k, v) # kvs else (k', v') # map_set k v kvs)"

definition map_delete :: "'k \<Rightarrow> ('k \<times> 'v) list \<Rightarrow> ('k \<times> 'v) list" where
  "map_delete k kvs = filter (\<lambda>kv. fst kv \<noteq> k) kvs"

text \<open>\<^verbatim>\<open>User.findByIdAndUpdate(id, { isOnline, lastSeen })\<close>\<close>

definition set_presence :: "object_id \<Rightarrow> bool \<Rightarrow> time \<Rightarrow> db \<Rightarrow> db" where
  "set_presence i b now d =
     d\<lparr>users := map (\<lambda>x. if user_id x = i then x\<lparr>isOnline := b, lastSeen := Some now\<rparr> else x)
                   (users d)\<rparr>"

definition user_json :: "user \<Rightarrow> json" where
  "user_json x = JObj [(''userId'', JId (user_id x)), (''username'', JStr (username x))]"

text \<open>\<^verbatim>\<open>io.on('connection')\<close>, up to the registration of the handlers.\<close>

definition on_connection :: "time \<Rightarrow> socket \<Rightarrow> server \<Rightarrow> emission list \<times> server" where
  "on_connection now s srv =
     (let x = socket_user s;
          cu = map_set (user_id x) (socket_id s, x) (connectedUsers srv)
      in ([\<lparr>target_of = Others (socket_id s), event = ''user_online'', payload = user_json x\<rparr>,
           \<lparr>target_of = Only (socket_id s), event = ''online_users'',
            payload = JArr (map (\<lambda>c. JObj [(''id'', JId (user_id (snd (snd c)))),
                                            (''username'', JStr (username (snd (snd c))))]) cu)\<rparr>],
          srv\<lparr>store := set_presence (user_id x) True now (store srv),
              connections := connections srv @ [s],
              connectedUsers := cu\<rparr>))"

text \<open>Reading and writing a key of a payload object; an object spread keeps the keys.\<close>

definition obj_get :: "(string \<times> json) list \<Rightarrow> string \<Rightarrow> json option" where
  "obj_get kvs k = map_of kvs k"

text \<open>An entry whose value is \<^verbatim>\<open>undefined\<close> is not sent.\<close>

definition entry :: "string \<Rightarrow> json option \<Rightarrow> (string \<times> json) list" where
  "entry k v = (case v of None \<Rightarrow> [] | Some j \<Rightarrow> [(k, j)])"

definition to_others :: "socket \<Rightarrow> string \<Rightarrow> json \<Rightarrow> emission list" where
  "to_others s ev j = [\<lparr>target_of = Others (socket_id s), event = ev, payload = j\<rparr>]"

text \<open>
  The handlers \<^verbatim>\<open>socket.on(event, ...)\<close> of a connected socket, for an event whose data
  is an object. An event with no handler is dropped.
\<close>

definition on_event :: "socket \<Rightarrow> string \<Rightarrow> (string \<times> json) list \<Rightarrow> emission list" where
  "on_event s ev data =
     (let name = username (socket_user s); uid = user_id (socket_user s) in
      if ev \<in> set [''task_created'', ''task_updated'', ''task_deleted'', ''task_moved'',
                   ''task_assigned'', ''task_smart_assigned'', ''tasks_reordered'',
                   ''new_activity'', ''edit_ended'', ''conflict_resolved'']
      then to_others s ev (JObj data)
      else if ev = ''edit_started''
      then to_others s ev (JObj (map_set ''editedBy'' (JStr name) data))
      else if ev = ''conflict_detected''
      then [\<lparr>target_of = Everyone, event = ''conflict_detected'',
             payload = JObj (map_set ''conflictUsers''
                               (JArr [JStr name,
                                      (case obj_get data ''otherUser'' of
                                         None \<Rightarrow> JNull | Some j \<Rightarrow> j)])
                               data)\<rparr>]
      else if ev = ''typing_start''
      then to_others s ev (JObj (entry ''taskId'' (obj_get data ''taskId'') @
                                  [(''userId'', JId uid), (''username'', JStr name)]))
      else if ev = ''typing_stop''
      then to_others s ev (JObj (entry ''taskId'' (obj_get data ''taskId'') @
                                  [(''userId'', JId uid)]))
      else if ev = ''cursor_position''
      then to_others s ev (JObj (map_set ''username'' (JStr name)
                                   (map_set ''userId'' (JId uid) data)))
      else if ev = ''ping''
      then [\<lparr>target_of = Only (socket_id s), event = ''pong'', payload = JNull\<rparr>]
      else [])"

text \<open>The events whose handler sends with \<^verbatim>\<open>socket.broadcast.emit\<close>.\<close>

definition relayed_events :: "string list" where
  "relayed_events =
     [''task_created'', ''task_updated'', ''task_deleted'', ''task_moved'', ''task_assigned'',
      ''task_smart_assigned'', ''tasks_reordered'', ''new_activity'', ''edit_started'',
      ''edit_ended'', ''conflict_resolved'', ''typing_start'', ''typing_stop'',
      ''cursor_position'']"

text \<open>
  \<^verbatim>\<open>socket.on('disconnect')\<close>. The socket has left the connected ones when the handler
  runs.
\<close>

definition on_disconnect :: "time \<Rightarrow> socket \<Rightarrow> server \<Rightarrow> emission list \<times> server" where
  "on_disconnect now s srv =
     (let x = socket_user s in
      (to_others s ''user_offline'' (user_json x) @ to_others s ''edit_ended'' (user_json x),
       srv\<lparr>store := set_presence (user_id x) False now (store srv),
           connections := filter (\<lambda>c. socket_id c \<noteq> socket_id s) (connections srv),
           connectedUsers := map_delete (user_id x) (connectedUsers srv)\<rparr>))"

section \<open>Cleanup of stale edit sessions\<close>

text \<open>
  The filter \<^verbatim>\<open>{ isBeingEdited: true, editStartTime: { $lt: staleTime } }\<close> with
  \<^verbatim>\<open>staleTime = Date.now() - 5 * 60 * 1000\<close>; a \<^verbatim>\<open>null\<close> start time matches no \<^verbatim>\<open>$lt\<close>.
\<close>

definition staleTimeout :: int where
  "staleTimeout = 5 * 60 * 1000"

definition is_stale :: "time \<Rightarrow> task \<Rightarrow> bool" where
  "is_stale now t =
     (isBeingEdited t \<and>
      (case editStartTime t of None \<Rightarrow> False | Some s \<Rightarrow> s < now - staleTimeout))"

text \<open>\<^verbatim>\<open>io.emit('edit_session_expired', { taskId: task._id.toString() })\<close>\<close>

definition expired_event :: "task \<Rightarrow> emission" where
  "expired_event t =
     \<lparr>target_of = Everyone, event = ''edit_session_expired'',
      payload = JObj [(''taskId'', JId (task_id t))]\<rparr>"

text \<open>
  One run of the function given to \<^verbatim>\<open>setInterval\<close>: find the stale tasks, and if there
  are any, \<^verbatim>\<open>updateMany\<close> with the same filter and one
  \<^verbatim>\<open>io.emit('edit_session_expired', { taskId })\<close> for each task found.
\<close>

definition sweep :: "time \<Rightarrow> server \<Rightarrow> emission list \<times> server" where
  "sweep now srv =
     (let staleTasks = filter (is_stale now) (tasks (store srv)) in
      if staleTasks = [] then ([], srv)
      else (map expired_event staleTasks,
            srv\<lparr>store := (store srv)\<lparr>tasks :=
                   map (\<lambda>t. if is_stale now t then free_task t else t) (tasks (store srv))\<rparr>\<rparr>))"

section \<open>Runs of the server\<close>

text \<open>
  Everything that changes the state of the server: the seven task routes, the socket
  events and the periodic cleanup. A reachable state is the state after a run of such
  requests from a server whose task collection is empty.
\<close>

datatype request =
    Create object_id user create_body
  | Update time user id_param "field_update list"
  | Delete user id_param
  | Smart_Assign user id_param
  | Start_Edit time user id_param
  | End_Edit user id_param
  | Reorder bool user "reorder_item list option"
  | Connect time socket
  | Client_Event socket string "(string \<times> json) list"
  | Disconnect time socket
  | Sweep time

definition via_route :: "(db \<Rightarrow> (failure + success) \<times> db) \<Rightarrow> server \<Rightarrow> server" where
  "via_route r srv = srv\<lparr>store := snd (r (store srv))\<rparr>"

fun step :: "server \<Rightarrow> request \<Rightarrow> server" where
  "step srv (Create new_id u b) = via_route (create_task new_id u b) srv"
| "step srv (Update now u p ups) = via_route (update_task now u p ups) srv"
| "step srv (Delete u p) = via_route (delete_task u p) srv"
| "step srv (Smart_Assign u p) = via_route (smart_assign u p) srv"
| "step srv (Start_Edit now u p) = via_route (start_edit now u p) srv"
| "step srv (End_Edit u p) = via_route (end_edit u p) srv"
| "step srv (Reorder b u body) = via_route (reorder b u body) srv"
| "step srv (Connect now s) = snd (on_connection now s srv)"
| "step srv (Client_Event s ev data) = srv"
| "step srv (Disconnect now s) = snd (on_disconnect now s srv)"
| "step srv (Sweep now) = snd (sweep now srv)"

definition run :: "server \<Rightarrow> request list \<Rightarrow> server" where
  "run srv rs = foldl step srv rs"

text \<open>
  The coherence of the lock fields of a task: it is not locked exactly when it has no
  holder, and it has no holder exactly when it has no acquisition time.
\<close>

definition lock_coherent :: "task \<Rightarrow> bool" where
  "lock_coherent t =
     ((\<not> isBeingEdited t \<longleftrightarrow> editedBy t = None) \<and>
      (editedBy t = None \<longleftrightarrow> editStartTime t = None))"

definition coherent :: "server \<Rightarrow> bool" where
  "coherent srv = list_all lock_coherent (tasks (store srv))"

section \<open>Example states\<close>

definition alice :: user where
  "alice = \<lparr>user_id = 1, username = ''alice'', isOnline = True, lastSeen = None\<rparr>"

definition bob :: user where
  "bob = \<lparr>user_id = 2, username = ''bob'', isOnline = True, lastSeen = None\<rparr>"

definition carol :: user where
  "carol = \<lparr>user_id = 3, username = ''carol'', isOnline = False, lastSeen = None\<rparr>"

text \<open>A task that nobody edits, and the same task locked by alice at time 1000.\<close>

definition plain_task :: task where
  "plain_task =
     \<lparr>task_id = 7, title = ''Ship release'', description = [], status = ''todo'',
      priority = ''medium'', assignedTo = 1, createdBy = 1, order = 0,
      isBeingEdited = False, editedBy = None, editStartTime = None, version = 1,
      lastModifiedBy = Some 1\<rparr>"

definition locked_task :: task where
  "locked_task =
     plain_task\<lparr>isBeingEdited := True, editedBy := Some 1, editStartTime := Some 1000\<rparr>"

definition plain_db :: db where
  "plain_db = \<lparr>tasks = [plain_task], users = [alice, bob, carol], activities = []\<rparr>"

definition locked_db :: db where
  "locked_db = \<lparr>tasks = [locked_task], users = [alice, bob, carol], activities = []\<rparr>"

text \<open>A reorder entry that moves task 7 to the done column.\<close>

definition move_item :: reorder_item where
  "move_item = \<lparr>r_id = Oid 7, r_status = ''done'', r_order = 3\<rparr>"

text \<open>
  A reorder entry that stores a status outside the enumeration, and the database after
  bob's reorder request with that entry.
\<close>

definition archive_item :: reorder_item where
  "archive_item = \<lparr>r_id = Oid 7, r_status = ''archived'', r_order = 0\<rparr>"

definition archived_db :: db where
  "archived_db = snd (reorder False bob (Some [archive_item]) plain_db)"

definition alice_socket :: socket where
  "alice_socket = \<lparr>socket_id = 11, socket_user = alice\<rparr>"

definition bob_socket :: socket where
  "bob_socket = \<lparr>socket_id = 12, socket_user = bob\<rparr>"

definition locked_server :: server where
  "locked_server =
     \<lparr>store = locked_db, connections = [alice_socket, bob_socket],
      connectedUsers = [(1, 11, alice), (2, 12, bob)]\<rparr>"

text \<open>A server with no task and nobody connected, and a create request.\<close>

definition empty_server :: server where
  "empty_server =
     \<lparr>store = \<lparr>tasks = [], users = [alice, bob, carol], activities = []\<rparr>,
      connections = [], connectedUsers = []\<rparr>"

definition ship_body :: create_body where
  "ship_body =
     \<lparr>c_title = Some ''Ship release'', c_description = None, c_assignedTo = Some (Oid 1),
      c_priority = None\<rparr>"

text \<open>Task counts by user id, and a database with a task and no user.\<close>

definition sample_loads :: "object_id \<rightharpoonup> nat" where
  "sample_loads = [1 \<mapsto> 2, 3 \<mapsto> 1]"

definition tied_loads :: "object_id \<rightharpoonup> nat" where
  "tied_loads = [1 \<mapsto> 1, 2 \<mapsto> 1]"

definition nobody_db :: db where
  "nobody_db = \<lparr>tasks = [plain_task], users = [], activities = []\<rparr>"

section \<open>Facts about the store\<close>

lemma findTask_id: "findTask i ts = Some t \<Longrightarrow> task_id t = i"
  by (induction ts) (auto simp: findTask_def split: if_splits)

lemma findTask_mem: "findTask i ts = Some t \<Longrightarrow> t \<in> set ts"
  by (induction ts) (auto simp: findTask_def split: if_splits)

lemma findTask_save_same:
  "findTask i ts = Some t \<Longrightarrow> task_id t' = i \<Longrightarrow> findTask i (save_task t' ts) = Some t'"
  by (induction ts) (auto simp: findTask_def split: if_splits)

lemma findTask_save_other:
  "task_id t' \<noteq> j \<Longrightarrow> findTask j (save_task t' ts) = findTask j ts"
  by (induction ts) (auto simp: findTask_def)

lemma set_save_task: "set (save_task t ts) \<subseteq> insert t (set ts)"
  by (induction ts) auto

lemma map_id_save_task: "map task_id (save_task t ts) = map task_id ts"
  by (induction ts) auto

section \<open>Facts about numbers\<close>

lemma nearest_double_small: "\<bar>n\<bar> \<le> 2 ^ 53 \<Longrightarrow> nearest_double n = n"
proof -
  assume "\<bar>n\<bar> \<le> 2 ^ 53"
  then have "nat \<bar>n\<bar> \<le> 2 ^ 53" by (simp add: nat_le_iff)
  then show ?thesis unfolding nearest_double_def Let_def by (rule if_P)
qed

lemma js_add1_exact: "exact_range v \<Longrightarrow> js_add1 v = v + 1"
  unfolding js_add1_def exact_range_def
  by (rule nearest_double_small) (simp add: abs_le_iff)




lemma js_add1_small [simp]:
  "js_add1 0 = 1" "js_add1 1 = 2" "js_add1 10 = 11"
  by (simp_all add: js_add1_exact exact_range_def)

lemma nearest_double_digit [simp]:
  "nearest_double 0 = 0" "nearest_double 3 = 3" "nearest_double 10 = 10"
  by (simp_all add: nearest_double_small)

section \<open>Facts about the example states\<close>

lemmas example_defs =
  alice_def bob_def carol_def plain_task_def locked_task_def plain_db_def locked_db_def
  alice_socket_def bob_socket_def locked_server_def

lemma trim_ship: "trim ''Ship release'' = ''Ship release''"
  by (simp add: trim_def is_space_def)

lemma valid_ship: "valid_title ''Ship release''"
  by (simp add: valid_title_def toLowerCase_def forbiddenNames_def)

lemma validate_doc_fields:
  "validate_doc
     (t\<lparr>assignedTo := a, createdBy := c, order := n, isBeingEdited := b, editedBy := e,
        editStartTime := s, version := v, lastModifiedBy := m\<rparr>) = validate_doc t"
  by (simp add: validate_doc_def)

lemma validate_plain: "validate_doc plain_task"
  by (simp add: validate_doc_def plain_task_def valid_ship valid_description_def
      valid_status_def valid_priority_def)

lemma validate_locked: "validate_doc locked_task"
  using validate_plain by (simp add: locked_task_def validate_doc_def)

lemma findTask_plain: "findTask 7 (tasks plain_db) = Some plain_task"
  by (simp add: findTask_def example_defs)

lemma findTask_locked: "findTask 7 (tasks locked_db) = Some locked_task"
  by (simp add: findTask_def example_defs)

lemma editor_name_alice: "editor_name 1 (users locked_db) = ''alice''"
  by (simp add: editor_name_def findUser_def example_defs)

lemma logActivity_no_task: "logActivity act None uid det desc acts = acts"
  by (simp add: logActivity_def valid_activity_def)

lemma reorder_archive:
  "reorder False bob (Some [archive_item]) plain_db =
     (Inr Tasks_Reordered,
      plain_db\<lparr>tasks := [plain_task\<lparr>status := ''archived'', lastModifiedBy := Some 2,
                                      version := 2\<rparr>]\<rparr>)"
  by (simp add: reorder_def archive_item_def reorder_op_def reorder_write_def
      logActivity_no_task example_defs)

lemma archived_db_eq:
  "archived_db =
     plain_db\<lparr>tasks := [plain_task\<lparr>status := ''archived'', lastModifiedBy := Some 2,
                                     version := 2\<rparr>]\<rparr>"
  by (simp add: archived_db_def reorder_archive)

lemma findTask_archived:
  "findTask 7 (tasks archived_db) =
     Some (plain_task\<lparr>status := ''archived'', lastModifiedBy := Some 2, version := 2\<rparr>)"
  by (simp add: archived_db_eq findTask_def plain_task_def)

lemma not_valid_archived:
  "\<not> validate_doc (plain_task\<lparr>status := ''archived'', lastModifiedBy := Some 2, version := 2\<rparr>)"
  by (simp add: validate_doc_def valid_status_def)

section \<open>The lock guard\<close>


lemma active_foreign_editor_held:
  "isBeingEdited t \<Longrightarrow> editedBy t = Some h \<Longrightarrow> h \<noteq> user_id u \<Longrightarrow>
   active_foreign_editor now u t = (if lock_age now t < 300000 then Some h else None)"
  by (simp add: active_foreign_editor_def editTimeout_def)

lemma validate_doc_take_lock: "validate_doc (take_lock now u t) = validate_doc t"
  by (simp add: take_lock_def validate_doc_def)

lemma validate_doc_free_task: "validate_doc (free_task t) = validate_doc t"
  by (simp add: free_task_def validate_doc_def)

lemma start_edit_found:
  "findTask i (tasks d) = Some t \<Longrightarrow>
   start_edit now u (Oid i) d =
     (case active_foreign_editor now u t of
        Some e \<Rightarrow> (Inl (Lock_Conflict (editor_name e (users d))), d)
      | None \<Rightarrow>
          if validate_doc t
          then (Inr Edit_Session_Started, d\<lparr>tasks := save_task (take_lock now u t) (tasks d)\<rparr>)
          else (Inl Server_Error, d))"
  by (simp add: start_edit_def validate_doc_take_lock split: option.splits)

section \<open>Acquiring the edit lock\<close>




section \<open>The conflict check of the mutating routes\<close>

lemma update_task_found:
  "findTask i (tasks d) = Some t \<Longrightarrow>
   update_task now u (Oid i) ups d =
     (case active_foreign_editor now u t of
        Some e \<Rightarrow> (Inl (Edit_Conflict (editor_name e (users d)) t), d)
      | None \<Rightarrow>
          if title_taken i t ups (tasks d) then (Inl Title_Not_Unique, d)
          else if list_ex hides_save ups then (Inl Server_Error, d)
          else if \<not> validate_doc (finish_update u (foldl assign t ups))
          then (Inl Validation_Failed, d)
          else if list_ex hides_populate ups
          then (Inl Server_Error,
                d\<lparr>tasks := save_task (finish_update u (foldl assign t ups)) (tasks d)\<rparr>)
          else (Inr (Task_Updated (finish_update u (foldl assign t ups))),
                d\<lparr>tasks := save_task (finish_update u (foldl assign t ups)) (tasks d),
                  activities := foldl (log_change u t (users d)) (activities d) ups\<rparr>))"
  by (simp add: update_task_def Let_def split: option.splits)

lemma validate_doc_assigned:
  "validate_doc (t\<lparr>assignedTo := a, lastModifiedBy := m, version := v\<rparr>) = validate_doc t"
  by (simp add: validate_doc_def)

lemma smart_assign_found:
  "findTask i (tasks d) = Some t \<Longrightarrow>
   smart_assign u (Oid i) d =
     (case selectAssignee (users d) (getTaskCounts (tasks d)) of
        (m, None) \<Rightarrow> (Inl No_Users_Available, d)
      | (m, Some sel) \<Rightarrow>
          if \<not> validate_doc t then (Inl Server_Error, d)
          else (Inr (Task_Smart_Assigned
                       (t\<lparr>assignedTo := user_id sel, lastModifiedBy := Some (user_id u),
                          version := js_add1 (version t)\<rparr>) (username sel) m),
                d\<lparr>tasks := save_task
                       (t\<lparr>assignedTo := user_id sel, lastModifiedBy := Some (user_id u),
                          version := js_add1 (version t)\<rparr>) (tasks d),
                  activities :=
                    logActivity ''smart_assign'' (Some (task_id t)) (Some (user_id u))
                      [(''previousAssignee'', JId (assignedTo t)),
                       (''newAssignee'', JId (user_id sel)),
                       (''taskCount'', (case m of enat n \<Rightarrow> JNum (int n) | \<infinity> \<Rightarrow> JNull))]
                      (username u @ '' smart-assigned task to '' @ username sel @
                       '' ('' @ show_count m @ '' active tasks)'')
                      (activities d)\<rparr>))"
  by (simp add: smart_assign_def Let_def validate_doc_assigned findTask_id
      split: prod.splits option.splits)

lemma select_one_task:
  "status x = ''todo'' \<Longrightarrow> assignedTo x = 1 \<Longrightarrow>
   selectAssignee [alice, bob, carol] (getTaskCounts [x]) = (0, Some bob)"
  by (simp add: selectAssignee_def getTaskCounts_def count_in_def consider_user_def
      userTaskCount_def zero_enat_def alice_def bob_def carol_def)

lemma select_locked:
  "selectAssignee (users locked_db) (getTaskCounts (tasks locked_db)) = (0, Some bob)"
  by (simp add: locked_db_def select_one_task locked_task_def plain_task_def)

lemma select_plain:
  "selectAssignee (users plain_db) (getTaskCounts (tasks plain_db)) = (0, Some bob)"
  by (simp add: plain_db_def select_one_task plain_task_def)

lemma smart_assign_no_conflict:
  "fst (smart_assign u p d) = Inl f \<Longrightarrow> status_code f \<noteq> 409"
  by (auto simp: smart_assign_def Let_def
      split: id_param.splits option.splits prod.splits if_splits)

lemma reorder_no_conflict:
  "fst (reorder b u body d) = Inl f \<Longrightarrow> status_code f \<noteq> 409"
  by (auto simp: reorder_def split: option.splits if_splits)

text \<open>
  Claim C2, as stated, fails: the smart-assign route and the reorder route never look at
  the lock fields. Here bob smart-assigns, at any time, the task that alice locked at
  time 1000 (at time 2000 that lock is one second old), and the request is accepted.
\<close>

theorem conflict_check_counterexample:
  "findTask 7 (tasks locked_db) = Some locked_task \<and>
   isBeingEdited locked_task \<and> editedBy locked_task = Some (user_id alice) \<and>
   user_id alice \<noteq> user_id bob \<and> lock_age 2000 locked_task = 1000 \<and>
   fst (smart_assign bob (Oid 7) locked_db) =
     Inr (Task_Smart_Assigned
            (locked_task\<lparr>assignedTo := 2, lastModifiedBy := Some 2, version := 2\<rparr>) ''bob'' 0)"
  apply (simp add: findTask_locked smart_assign_found [OF findTask_locked] select_locked
      validate_locked)
  apply (simp add: example_defs lock_age_def)
  done

text \<open>
  Claim C2, amended. An update request on a task found under \<open>i\<close> is answered with the
  conflict reply (status 409, \<^verbatim>\<open>conflict: true\<close>, the database left as it was) when
  another user holds the lock and its age is below five minutes; in every other case
  the reply of the update is no conflict. The smart-assign route and the reorder route
  make no lock check: neither ever answers with status 409.
\<close>

theorem conflict_check_update:
  assumes found: "findTask i (tasks d) = Some t"
  shows "(\<forall>h. isBeingEdited t \<and> editedBy t = Some h \<and> h \<noteq> user_id u \<and>
               lock_age now t < 5 * 60 * 1000 \<longrightarrow>
            update_task now u (Oid i) ups d =
              (Inl (Edit_Conflict (editor_name h (users d)) t), d) \<and>
            status_code (Edit_Conflict (editor_name h (users d)) t) = 409 \<and>
            conflict_flag (Edit_Conflict (editor_name h (users d)) t))
       \<and> (\<not> (isBeingEdited t \<and> (\<exists>h. editedBy t = Some h \<and> h \<noteq> user_id u) \<and>
               lock_age now t < 5 * 60 * 1000) \<longrightarrow>
            (\<forall>f. fst (update_task now u (Oid i) ups d) = Inl f \<longrightarrow>
                 status_code f \<noteq> 409 \<and> \<not> conflict_flag f))
       \<and> (\<forall>f. fst (smart_assign u p d) = Inl f \<longrightarrow> status_code f \<noteq> 409)
       \<and> (\<forall>f. fst (reorder b u body d) = Inl f \<longrightarrow> status_code f \<noteq> 409)"
proof (intro conjI allI impI)
  fix h
  assume "isBeingEdited t \<and> editedBy t = Some h \<and> h \<noteq> user_id u \<and>
          lock_age now t < 5 * 60 * 1000"
  then have "active_foreign_editor now u t = Some h"
    by (simp add: active_foreign_editor_held)
  then show "update_task now u (Oid i) ups d =
      (Inl (Edit_Conflict (editor_name h (users d)) t), d)"
    using found by (simp add: update_task_found)
next
  fix f
  assume n: "\<not> (isBeingEdited t \<and> (\<exists>h. editedBy t = Some h \<and> h \<noteq> user_id u) \<and>
                lock_age now t < 5 * 60 * 1000)"
    and r: "fst (update_task now u (Oid i) ups d) = Inl f"
  from n have free: "active_foreign_editor now u t = None"
    by (auto simp: active_foreign_editor_def editTimeout_def split: option.splits)
  from r have "f = Title_Not_Unique \<or> f = Validation_Failed \<or> f = Server_Error"
    using found free by (auto simp: update_task_found split: if_splits)
  then show "status_code f \<noteq> 409" and "\<not> conflict_flag f" by auto
next
  fix f assume "fst (smart_assign u p d) = Inl f"
  then show "status_code f \<noteq> 409" by (rule smart_assign_no_conflict)
next
  fix f assume "fst (reorder b u body d) = Inl f"
  then show "status_code f \<noteq> 409" by (rule reorder_no_conflict)
qed simp_all

theorem conflict_check_update_witness:
  "findTask 7 (tasks locked_db) = Some locked_task \<and>
   isBeingEdited locked_task \<and> editedBy locked_task = Some 1 \<and> 1 \<noteq> user_id bob \<and>
   lock_age 2000 locked_task < 5 * 60 * 1000 \<and>
   update_task 2000 bob (Oid 7) [Set_priority ''high''] locked_db =
     (Inl (Edit_Conflict ''alice'' locked_task), locked_db) \<and>
   status_code (Edit_Conflict ''alice'' locked_task) = 409 \<and>
   conflict_flag (Edit_Conflict ''alice'' locked_task) \<and>
   \<not> lock_age 301000 locked_task < 5 * 60 * 1000 \<and>
   fst (update_task 301000 bob (Oid 7) [Set_priority ''high''] locked_db) =
     Inr (Task_Updated
            (plain_task\<lparr>priority := ''high'', version := 2, lastModifiedBy := Some 2\<rparr>))"
proof -
  note a = conflict_check_update [OF findTask_locked, of bob 2000 "[Set_priority ''high'']"]
  have e: "lock_age 2000 locked_task = 1000" "lock_age 301000 locked_task = 300000"
    by (simp_all add: lock_age_def example_defs)
  have l: "isBeingEdited locked_task" "editedBy locked_task = Some 1"
    by (simp_all add: example_defs)
  have u: "user_id bob = 2" by (simp add: example_defs)
  have free: "active_foreign_editor 301000 bob locked_task = None"
    using l u e by (simp add: active_foreign_editor_held)
  have late: "fst (update_task 301000 bob (Oid 7) [Set_priority ''high''] locked_db) =
     Inr (Task_Updated
            (plain_task\<lparr>priority := ''high'', version := 2, lastModifiedBy := Some 2\<rparr>))"
    using free
    by (simp add: update_task_found [OF findTask_locked] title_taken_def)
       (simp add: example_defs validate_doc_def valid_ship valid_description_def
          valid_status_def valid_priority_def finish_update_def)
  show ?thesis
    using findTask_locked a editor_name_alice e l u late by simp
qed

section \<open>Facts about the writes of the routes\<close>

lemma assign_task_id: "task_id (assign t x) = task_id t"
  by (cases x) auto

lemma foldl_assign_task_id: "task_id (foldl assign t ups) = task_id t"
  by (induction ups arbitrary: t) (simp_all add: assign_task_id)


lemma assign_createdBy_other: "(\<forall>v. Set_createdBy v \<noteq> x) \<Longrightarrow> createdBy (assign t x) = createdBy t"
  by (cases x) auto


lemma foldl_assign_createdBy_absent:
  "(\<forall>v. Set_createdBy v \<notin> set ups) \<Longrightarrow> createdBy (foldl assign t ups) = createdBy t"
  by (induction ups arbitrary: t) (auto simp: assign_createdBy_other)


lemma foldl_assign_createdBy_present:
  "distinct (map key_of ups) \<Longrightarrow> Set_createdBy v \<in> set ups \<Longrightarrow>
   createdBy (foldl assign t ups) = v"
proof (induction ups arbitrary: t)
  case Nil
  then show ?case by simp
next
  case (Cons x xs)
  show ?case
  proof (cases "x = Set_createdBy v")
    case True
    have "\<forall>w. Set_createdBy w \<notin> set xs"
    proof (intro allI notI)
      fix w assume "Set_createdBy w \<in> set xs"
      then have "key_of (Set_createdBy w) \<in> key_of ` set xs" by (rule imageI)
      with Cons.prems(1) True show False by simp
    qed
    then show ?thesis using True by (simp add: foldl_assign_createdBy_absent)
  next
    case False
    with Cons.prems have "Set_createdBy v \<in> set xs" "distinct (map key_of xs)" by auto
    then show ?thesis using Cons.IH by simp
  qed
qed

lemma update_task_accepted:
  assumes "findTask i (tasks d) = Some t"
    and "update_task now u (Oid i) ups d = (Inr r, d')"
  shows "r = Task_Updated (finish_update u (foldl assign t ups)) \<and>
         tasks d' = save_task (finish_update u (foldl assign t ups)) (tasks d) \<and>
         findTask i (tasks d') = Some (finish_update u (foldl assign t ups))"
proof -
  let ?t' = "finish_update u (foldl assign t ups)"
  have id: "task_id ?t' = i"
    using assms(1) by (simp add: finish_update_def foldl_assign_task_id findTask_id)
  have "r = Task_Updated ?t' \<and> tasks d' = save_task ?t' (tasks d)"
    using assms by (auto simp: update_task_found split: option.splits if_splits)
  moreover have "findTask i (save_task ?t' (tasks d)) = Some ?t'"
    using assms(1) id by (rule findTask_save_same)
  ultimately show ?thesis by simp
qed








section \<open>The version counter\<close>




lemma free_plain: "active_foreign_editor now u plain_task = None"
  by (simp add: active_foreign_editor_def example_defs)

lemma update_priority_plain:
  "update_task 0 bob (Oid 7) [Set_priority ''high''] plain_db =
     (Inr (Task_Updated (plain_task\<lparr>priority := ''high'', version := 2,
                                     lastModifiedBy := Some 2\<rparr>)),
      plain_db\<lparr>tasks := [plain_task\<lparr>priority := ''high'', version := 2,
                                      lastModifiedBy := Some 2\<rparr>],
               activities :=
                 [\<lparr>action = ''update'', act_taskId = Some 7, act_userId = Some 2,
                   details = [(''field'', JStr ''priority''), (''oldValue'', JStr ''medium''),
                              (''newValue'', JStr ''high'')],
                   act_description = ''bob changed priority to high''\<rparr>]\<rparr>)"
  by (simp add: update_task_found [OF findTask_plain] title_taken_def free_plain)
     (simp add: example_defs validate_doc_def valid_ship valid_description_def
        valid_status_def valid_priority_def finish_update_def
        logActivity_def valid_activity_def activity_actions_def details_paths_def)

lemma show_nat_digit: "show_nat 0 = ''0''" "show_nat 1 = ''1''"
  by code_simp+

lemma smart_assign_plain:
  "smart_assign bob (Oid 7) plain_db =
     (Inr (Task_Smart_Assigned
             (plain_task\<lparr>assignedTo := 2, lastModifiedBy := Some 2, version := 2\<rparr>) ''bob'' 0),
      plain_db\<lparr>tasks := [plain_task\<lparr>assignedTo := 2, lastModifiedBy := Some 2, version := 2\<rparr>],
               activities :=
                 [\<lparr>action = ''smart_assign'', act_taskId = Some 7, act_userId = Some 2,
                   details = [(''previousAssignee'', JId 1), (''newAssignee'', JId 2)],
                   act_description = ''bob smart-assigned task to bob (0 active tasks)''\<rparr>]\<rparr>)"
  by (simp add: smart_assign_found [OF findTask_plain] select_plain validate_plain)
     (simp add: example_defs zero_enat_def logActivity_def valid_activity_def
        activity_actions_def details_paths_def show_count_def show_nat_digit)




lemma foldl_assign_keep:
  "(\<And>s x. x \<in> set ups \<Longrightarrow> f (assign s x) = f s) \<Longrightarrow> f (foldl assign t ups) = f t"
  by (induction ups arbitrary: t) simp_all

lemma foldl_assign_title_absent:
  "(\<forall>v. Set_title v \<notin> set ups) \<Longrightarrow> title (foldl assign t ups) = title t"
proof (rule foldl_assign_keep)
  fix s x assume "\<forall>v. Set_title v \<notin> set ups" "x \<in> set ups"
  then show "title (assign s x) = title s" by (cases x) auto
qed

lemma foldl_assign_description_absent:
  "(\<forall>v. Set_description v \<notin> set ups) \<Longrightarrow> description (foldl assign t ups) = description t"
proof (rule foldl_assign_keep)
  fix s x assume "\<forall>v. Set_description v \<notin> set ups" "x \<in> set ups"
  then show "description (assign s x) = description s" by (cases x) auto
qed

lemma foldl_assign_status_absent:
  "(\<forall>v. Set_status v \<notin> set ups) \<Longrightarrow> status (foldl assign t ups) = status t"
proof (rule foldl_assign_keep)
  fix s x assume "\<forall>v. Set_status v \<notin> set ups" "x \<in> set ups"
  then show "status (assign s x) = status s" by (cases x) auto
qed

lemma foldl_assign_priority_absent:
  "(\<forall>v. Set_priority v \<notin> set ups) \<Longrightarrow> priority (foldl assign t ups) = priority t"
proof (rule foldl_assign_keep)
  fix s x assume "\<forall>v. Set_priority v \<notin> set ups" "x \<in> set ups"
  then show "priority (assign s x) = priority s" by (cases x) auto
qed

lemma foldl_assign_assignedTo_absent:
  "(\<forall>v. Set_assignedTo v \<notin> set ups) \<Longrightarrow> assignedTo (foldl assign t ups) = assignedTo t"
proof (rule foldl_assign_keep)
  fix s x assume "\<forall>v. Set_assignedTo v \<notin> set ups" "x \<in> set ups"
  then show "assignedTo (assign s x) = assignedTo s" by (cases x) auto
qed

lemma foldl_assign_order_absent:
  "(\<forall>v. Set_order v \<notin> set ups) \<Longrightarrow> order (foldl assign t ups) = order t"
proof (rule foldl_assign_keep)
  fix s x assume "\<forall>v. Set_order v \<notin> set ups" "x \<in> set ups"
  then show "order (assign s x) = order s" by (cases x) auto
qed

section \<open>What an update leaves alone\<close>

text \<open>
  Claim C6, amended. An accepted update of the task \<open>t\<close> found under \<open>i\<close> stores a task
  \<open>t'\<close> under the same id in which each of \<open>createdBy\<close>, \<open>title\<close>, \<open>description\<close>,
  \<open>status\<close>, \<open>priority\<close>, \<open>assignedTo\<close> and \<open>order\<close> has the value it had in \<open>t\<close>
  unless the body names it; a \<^verbatim>\<open>createdBy\<close> entry of the body replaces the creator. The
  modifier, and the lock fields, are rewritten by every accepted update.
\<close>

theorem update_frame:
  assumes found: "findTask i (tasks d) = Some t"
    and acc: "update_task now u (Oid i) ups d = (Inr r, d')"
  shows "\<exists>t'. r = Task_Updated t' \<and> findTask i (tasks d') = Some t' \<and>
      ((\<forall>v. Set_createdBy v \<notin> set ups) \<longrightarrow> createdBy t' = createdBy t) \<and>
      (\<forall>v. distinct (map key_of ups) \<and> Set_createdBy v \<in> set ups \<longrightarrow> createdBy t' = v) \<and>
      ((\<forall>v. Set_title v \<notin> set ups) \<longrightarrow> title t' = title t) \<and>
      ((\<forall>v. Set_description v \<notin> set ups) \<longrightarrow> description t' = description t) \<and>
      ((\<forall>v. Set_status v \<notin> set ups) \<longrightarrow> status t' = status t) \<and>
      ((\<forall>v. Set_priority v \<notin> set ups) \<longrightarrow> priority t' = priority t) \<and>
      ((\<forall>v. Set_assignedTo v \<notin> set ups) \<longrightarrow> assignedTo t' = assignedTo t) \<and>
      ((\<forall>v. Set_order v \<notin> set ups) \<longrightarrow> order t' = order t) \<and>
      task_id t' = task_id t \<and>
      lastModifiedBy t' = Some (user_id u) \<and>
      \<not> isBeingEdited t' \<and> editedBy t' = None \<and> editStartTime t' = None"
proof -
  let ?s = "foldl assign t ups"
  let ?t' = "finish_update u ?s"
  have keep: "createdBy ?t' = createdBy ?s" "title ?t' = title ?s"
    "description ?t' = description ?s" "status ?t' = status ?s" "priority ?t' = priority ?s"
    "assignedTo ?t' = assignedTo ?s" "order ?t' = order ?s" "task_id ?t' = task_id ?s"
    by (simp_all add: finish_update_def)
  have reset: "lastModifiedBy ?t' = Some (user_id u)" "\<not> isBeingEdited ?t'"
    "editedBy ?t' = None" "editStartTime ?t' = None"
    by (simp_all add: finish_update_def)
  have "r = Task_Updated ?t'" "findTask i (tasks d') = Some ?t'"
    using update_task_accepted [OF found acc] by blast+
  moreover have "(\<forall>v. Set_createdBy v \<notin> set ups) \<longrightarrow> createdBy ?t' = createdBy t"
    by (simp add: keep foldl_assign_createdBy_absent)
  moreover have "\<forall>v. distinct (map key_of ups) \<and> Set_createdBy v \<in> set ups \<longrightarrow>
      createdBy ?t' = v"
    by (simp add: keep foldl_assign_createdBy_present)
  moreover have "(\<forall>v. Set_title v \<notin> set ups) \<longrightarrow> title ?t' = title t"
    by (simp add: keep foldl_assign_title_absent)
  moreover have "(\<forall>v. Set_description v \<notin> set ups) \<longrightarrow> description ?t' = description t"
    by (simp add: keep foldl_assign_description_absent)
  moreover have "(\<forall>v. Set_status v \<notin> set ups) \<longrightarrow> status ?t' = status t"
    by (simp add: keep foldl_assign_status_absent)
  moreover have "(\<forall>v. Set_priority v \<notin> set ups) \<longrightarrow> priority ?t' = priority t"
    by (simp add: keep foldl_assign_priority_absent)
  moreover have "(\<forall>v. Set_assignedTo v \<notin> set ups) \<longrightarrow> assignedTo ?t' = assignedTo t"
    by (simp add: keep foldl_assign_assignedTo_absent)
  moreover have "(\<forall>v. Set_order v \<notin> set ups) \<longrightarrow> order ?t' = order t"
    by (simp add: keep foldl_assign_order_absent)
  moreover have "task_id ?t' = task_id t"
    by (simp add: keep foldl_assign_task_id)
  ultimately show ?thesis
    using reset by blast
qed

text \<open>
  Claim C6, as stated, fails: \<^verbatim>\<open>createdBy\<close> is not among the three keys the update route
  skips. Here the task was created by user 1, the body is \<^verbatim>\<open>{ createdBy: 3 }\<close>, and
  the accepted update stores the creator 3.
\<close>

theorem update_frame_counterexample:
  "findTask 7 (tasks plain_db) = Some plain_task \<and> createdBy plain_task = 1 \<and>
   update_task 0 bob (Oid 7) [Set_createdBy 3] plain_db =
     (Inr (Task_Updated (plain_task\<lparr>createdBy := 3, version := 2, lastModifiedBy := Some 2\<rparr>)),
      plain_db\<lparr>tasks := [plain_task\<lparr>createdBy := 3, version := 2,
                                      lastModifiedBy := Some 2\<rparr>]\<rparr>)"
proof -
  have "validate_doc (finish_update bob (plain_task\<lparr>createdBy := 3\<rparr>))"
    using validate_plain by (simp add: finish_update_def validate_doc_def)
  then show ?thesis
    by (simp add: findTask_plain update_task_found [OF findTask_plain] title_taken_def
          free_plain)
       (simp add: example_defs finish_update_def)
qed

theorem update_frame_witness:
  "findTask 7 (tasks plain_db) = Some plain_task \<and>
   (\<exists>t'. fst (update_task 0 bob (Oid 7) [Set_priority ''high''] plain_db) =
            Inr (Task_Updated t') \<and>
         createdBy t' = 1 \<and> title t' = ''Ship release'' \<and> status t' = ''todo'' \<and>
         assignedTo t' = 1 \<and> order t' = 0 \<and> lastModifiedBy t' = Some 2) \<and>
   (\<exists>t'. fst (update_task 0 bob (Oid 7) [Set_createdBy 3] plain_db) = Inr (Task_Updated t') \<and>
         createdBy t' = 3)"
proof -
  obtain r1 d1 where a1: "update_task 0 bob (Oid 7) [Set_priority ''high''] plain_db = (Inr r1, d1)"
    using update_priority_plain by blast
  obtain r2 d2 where a2: "update_task 0 bob (Oid 7) [Set_createdBy 3] plain_db = (Inr r2, d2)"
    using update_frame_counterexample by blast
  have p: "createdBy plain_task = 1" "title plain_task = ''Ship release''"
    "status plain_task = ''todo''" "assignedTo plain_task = 1" "order plain_task = 0"
    "user_id bob = 2"
    by (simp_all add: example_defs)
  from update_frame [OF findTask_plain a1] p
  have "\<exists>t'. r1 = Task_Updated t' \<and>
         createdBy t' = 1 \<and> title t' = ''Ship release'' \<and> status t' = ''todo'' \<and>
         assignedTo t' = 1 \<and> order t' = 0 \<and> lastModifiedBy t' = Some 2"
    by auto
  moreover from update_frame [OF findTask_plain a2]
  have "\<exists>t'. r2 = Task_Updated t' \<and> createdBy t' = 3"
    by auto
  ultimately show ?thesis
    using a1 a2 findTask_plain by simp
qed

section \<open>Disconnecting\<close>

lemma recipients_others:
  "recipients conns \<lparr>target_of = Others k, event = ev, payload = j\<rparr> =
     filter (\<lambda>r. r \<noteq> k) (map socket_id conns)"
  by (simp add: recipients_def cong: filter_cong)

lemma recipients_everyone:
  "recipients conns \<lparr>target_of = Everyone, event = ev, payload = j\<rparr> = map socket_id conns"
  by (simp add: recipients_def)

lemma map_socket_id_filter:
  "filter (\<lambda>r. r \<noteq> k) (map socket_id (filter (\<lambda>c. socket_id c \<noteq> k) conns)) =
   map socket_id (filter (\<lambda>c. socket_id c \<noteq> k) conns)"
  by (induction conns) simp_all

text \<open>
  What the disconnect handler of a socket \<open>s\<close> does: it writes to no task, removes \<open>s\<close>
  from the connections and sends exactly two events, \<^verbatim>\<open>user_offline\<close> and then
  \<^verbatim>\<open>edit_ended\<close>, each carrying the user of \<open>s\<close> and no task, each delivered to every
  connection that remains and not to \<open>s\<close>.
\<close>

lemma disconnect_emits:
  assumes "on_disconnect now s srv = (es, srv')"
  shows "tasks (store srv') = tasks (store srv) \<and>
     connections srv' = filter (\<lambda>c. socket_id c \<noteq> socket_id s) (connections srv) \<and>
     es = [\<lparr>target_of = Others (socket_id s), event = ''user_offline'',
             payload = user_json (socket_user s)\<rparr>,
           \<lparr>target_of = Others (socket_id s), event = ''edit_ended'',
             payload = user_json (socket_user s)\<rparr>] \<and>
     (\<forall>e \<in> set es. recipients (connections srv') e = map socket_id (connections srv') \<and>
                     socket_id s \<notin> set (recipients (connections srv) e))"
proof -
  from assms have es: "es = [\<lparr>target_of = Others (socket_id s), event = ''user_offline'',
             payload = user_json (socket_user s)\<rparr>,
           \<lparr>target_of = Others (socket_id s), event = ''edit_ended'',
             payload = user_json (socket_user s)\<rparr>]"
    and srv': "srv' = srv\<lparr>store := set_presence (user_id (socket_user s)) False now (store srv),
           connections := filter (\<lambda>c. socket_id c \<noteq> socket_id s) (connections srv),
           connectedUsers := map_delete (user_id (socket_user s)) (connectedUsers srv)\<rparr>"
    by (auto simp: on_disconnect_def Let_def to_others_def)
  have "tasks (store srv') = tasks (store srv)"
    by (simp add: srv' set_presence_def)
  moreover have "connections srv' = filter (\<lambda>c. socket_id c \<noteq> socket_id s) (connections srv)"
    by (simp add: srv')
  moreover have "\<forall>e \<in> set es. recipients (connections srv') e = map socket_id (connections srv') \<and>
                     socket_id s \<notin> set (recipients (connections srv) e)"
    by (simp add: es srv' recipients_others map_socket_id_filter)
  ultimately show ?thesis using es by simp
qed

lemma disconnect_alice:
  "on_disconnect 5000 alice_socket locked_server =
     ([\<lparr>target_of = Others 11, event = ''user_offline'',
        payload = JObj [(''userId'', JId 1), (''username'', JStr ''alice'')]\<rparr>,
       \<lparr>target_of = Others 11, event = ''edit_ended'',
        payload = JObj [(''userId'', JId 1), (''username'', JStr ''alice'')]\<rparr>],
      locked_server\<lparr>store := locked_db\<lparr>users :=
                       [alice\<lparr>isOnline := False, lastSeen := Some 5000\<rparr>, bob, carol]\<rparr>,
                    connections := [bob_socket], connectedUsers := [(2, 12, bob)]\<rparr>)"
  by (simp add: on_disconnect_def set_presence_def Let_def to_others_def user_json_def
      map_delete_def example_defs)

text \<open>
  Claim C4 at a failing input. The handler sets out to end the edit sessions of the user
  who disconnects, but it only announces their end: it resets no lock. Here alice holds
  the lock of task 7, taken at time 1000, when her socket disconnects at time 5000. The
  two events go to bob's socket, the task is still locked by alice afterwards, and bob's
  update at time 6000 is refused as a conflict with alice.
\<close>

theorem disconnect_keeps_lock:
  "connections locked_server = [alice_socket, bob_socket] \<and>
   findTask 7 (tasks (store locked_server)) = Some locked_task \<and>
   isBeingEdited locked_task \<and>
   editedBy locked_task = Some (user_id (socket_user alice_socket)) \<and>
   map event (fst (on_disconnect 5000 alice_socket locked_server)) =
     [''user_offline'', ''edit_ended''] \<and>
   map (recipients (connections (snd (on_disconnect 5000 alice_socket locked_server))))
     (fst (on_disconnect 5000 alice_socket locked_server)) = [[12], [12]] \<and>
   findTask 7 (tasks (store (snd (on_disconnect 5000 alice_socket locked_server)))) =
     Some locked_task \<and>
   fst (update_task 6000 bob (Oid 7) [Set_priority ''high'']
          (store (snd (on_disconnect 5000 alice_socket locked_server)))) =
     Inl (Edit_Conflict ''alice'' locked_task)"
proof -
  let ?d = "locked_db\<lparr>users := [alice\<lparr>isOnline := False, lastSeen := Some 5000\<rparr>, bob, carol]\<rparr>"
  have f: "findTask 7 (tasks ?d) = Some locked_task"
    by (simp add: findTask_def example_defs)
  have "active_foreign_editor 6000 bob locked_task = Some 1"
    by (simp add: active_foreign_editor_def lock_age_def editTimeout_def example_defs)
  moreover have "editor_name 1 (users ?d) = ''alice''"
    by (simp add: editor_name_def findUser_def example_defs)
  ultimately have "fst (update_task 6000 bob (Oid 7) [Set_priority ''high''] ?d) =
      Inl (Edit_Conflict ''alice'' locked_task)"
    by (simp add: update_task_found [OF f])
  moreover have "map (recipients [bob_socket])
      [\<lparr>target_of = Others 11, event = ''user_offline'',
        payload = JObj [(''userId'', JId 1), (''username'', JStr ''alice'')]\<rparr>,
       \<lparr>target_of = Others 11, event = ''edit_ended'',
        payload = JObj [(''userId'', JId 1), (''username'', JStr ''alice'')]\<rparr>] = [[12], [12]]"
    by (simp add: recipients_others bob_socket_def)
  moreover have "connections locked_server = [alice_socket, bob_socket]"
    "findTask 7 (tasks (store locked_server)) = Some locked_task"
    "isBeingEdited locked_task"
    "editedBy locked_task = Some (user_id (socket_user alice_socket))"
    by (simp_all add: findTask_def example_defs)
  ultimately show ?thesis
    using f by (simp add: disconnect_alice)
qed

section \<open>Relaying client events\<close>

lemma on_event_relayed:
  "ev \<in> set relayed_events \<Longrightarrow>
   \<exists>j. on_event s ev data = [\<lparr>target_of = Others (socket_id s), event = ev, payload = j\<rparr>]"
  unfolding relayed_events_def
  by (auto simp: on_event_def to_others_def Let_def)

lemma on_event_conflict_detected:
  "on_event s ''conflict_detected'' data =
     [\<lparr>target_of = Everyone, event = ''conflict_detected'',
       payload = JObj (map_set ''conflictUsers''
                         (JArr [JStr (username (socket_user s)),
                                (case obj_get data ''otherUser'' of None \<Rightarrow> JNull | Some j \<Rightarrow> j)])
                         data)\<rparr>]"
  by (simp add: on_event_def Let_def)

text \<open>
  Claim C5, amended. An event of \<open>relayed_events\<close> that a socket \<open>s\<close> sends is sent on
  once, under the same name, to every connected socket other than \<open>s\<close> and never to \<open>s\<close>
  itself. A \<^verbatim>\<open>conflict_detected\<close> event is sent on once to every connected socket, the
  sender included.
\<close>

theorem relay_no_echo:
  "(ev \<in> set relayed_events \<longrightarrow>
      (\<exists>j. on_event s ev data =
              [\<lparr>target_of = Others (socket_id s), event = ev, payload = j\<rparr>]) \<and>
      (\<forall>e \<in> set (on_event s ev data).
          recipients conns e = filter (\<lambda>r. r \<noteq> socket_id s) (map socket_id conns) \<and>
          socket_id s \<notin> set (recipients conns e)))
   \<and> (\<exists>j. on_event s ''conflict_detected'' data =
              [\<lparr>target_of = Everyone, event = ''conflict_detected'', payload = j\<rparr>])
   \<and> (\<forall>e \<in> set (on_event s ''conflict_detected'' data).
          recipients conns e = map socket_id conns)"
proof (intro conjI impI)
  assume "ev \<in> set relayed_events"
  then obtain j where j: "on_event s ev data =
      [\<lparr>target_of = Others (socket_id s), event = ev, payload = j\<rparr>]"
    using on_event_relayed by blast
  then show "\<exists>j. on_event s ev data =
      [\<lparr>target_of = Others (socket_id s), event = ev, payload = j\<rparr>]" by blast
  show "\<forall>e \<in> set (on_event s ev data).
          recipients conns e = filter (\<lambda>r. r \<noteq> socket_id s) (map socket_id conns) \<and>
          socket_id s \<notin> set (recipients conns e)"
    by (simp add: j recipients_others)
next
  show "\<exists>j. on_event s ''conflict_detected'' data =
      [\<lparr>target_of = Everyone, event = ''conflict_detected'', payload = j\<rparr>]"
    by (simp add: on_event_conflict_detected)
  show "\<forall>e \<in> set (on_event s ''conflict_detected'' data). recipients conns e = map socket_id conns"
    by (simp add: on_event_conflict_detected recipients_everyone)
qed

text \<open>
  Claim C5, as stated, fails for \<^verbatim>\<open>conflict_detected\<close>, whose handler uses \<^verbatim>\<open>io.emit\<close>:
  with alice (socket 11) and bob (socket 12) connected, the event that alice sends is
  delivered to sockets 11 and 12.
\<close>

theorem relay_no_echo_counterexample:
  "connections locked_server = [alice_socket, bob_socket] \<and>
   socket_id alice_socket = 11 \<and>
   map (recipients (connections locked_server))
     (on_event alice_socket ''conflict_detected'' [(''taskId'', JId 7), (''otherUser'', JStr ''bob'')])
     = [[11, 12]]"
  by (simp add: on_event_conflict_detected recipients_everyone example_defs)

theorem relay_no_echo_witness:
  "''task_updated'' \<in> set relayed_events \<and>
   on_event alice_socket ''task_updated'' [(''taskId'', JId 7)] =
     [\<lparr>target_of = Others 11, event = ''task_updated'', payload = JObj [(''taskId'', JId 7)]\<rparr>] \<and>
   map (recipients (connections locked_server))
       (on_event alice_socket ''task_updated'' [(''taskId'', JId 7)]) = [[12]] \<and>
   map (recipients (connections locked_server))
       (on_event alice_socket ''conflict_detected'' [(''taskId'', JId 7)]) = [[11, 12]]"
proof -
  have m: "''task_updated'' \<in> set relayed_events"
    by (simp add: relayed_events_def)
  have ev: "on_event alice_socket ''task_updated'' [(''taskId'', JId 7)] =
     [\<lparr>target_of = Others 11, event = ''task_updated'', payload = JObj [(''taskId'', JId 7)]\<rparr>]"
    by (simp add: on_event_def to_others_def Let_def example_defs)
  note w = relay_no_echo [of "''task_updated''" alice_socket "[(''taskId'', JId 7)]"
      "connections locked_server"]
  have c: "map socket_id (connections locked_server) = [11, 12]" "socket_id alice_socket = 11"
    by (simp_all add: example_defs)
  have "map (recipients (connections locked_server))
       (on_event alice_socket ''task_updated'' [(''taskId'', JId 7)]) = [[12]]"
    using w m ev c by simp
  moreover have "map (recipients (connections locked_server))
       (on_event alice_socket ''conflict_detected'' [(''taskId'', JId 7)]) = [[11, 12]]"
    using w c by (simp add: on_event_conflict_detected)
  ultimately show ?thesis using m ev by simp
qed

section \<open>The cleanup of stale edit sessions\<close>

lemma findTask_distinct:
  "distinct (map task_id ts) \<Longrightarrow> t \<in> set ts \<Longrightarrow> findTask (task_id t) ts = Some t"
  by (induction ts) (auto simp: findTask_def)

lemma findTask_map:
  "(\<And>x. task_id (g x) = task_id x) \<Longrightarrow> findTask i (map g ts) = map_option g (findTask i ts)"
  by (induction ts) (auto simp: findTask_def)

lemma filter_same_id:
  "distinct (map task_id ts) \<Longrightarrow> t \<in> set ts \<Longrightarrow>
   filter (\<lambda>x. P x \<and> task_id x = task_id t) ts = (if P t then [t] else [])"
proof (induction ts)
  case Nil
  then show ?case by simp
next
  case (Cons a ts)
  show ?case
  proof (cases "a = t")
    case True
    have "\<forall>x \<in> set ts. task_id x \<noteq> task_id t"
      using Cons.prems(1) True by (auto simp: image_iff)
    then have "filter (\<lambda>x. P x \<and> task_id x = task_id t) ts = []"
      by (simp add: filter_empty_conv)
    then show ?thesis using True by simp
  next
    case False
    then have "t \<in> set ts" using Cons.prems(2) by simp
    moreover have "task_id a \<noteq> task_id t"
      using Cons.prems(1) \<open>t \<in> set ts\<close> by (auto simp: image_iff)
    ultimately show ?thesis using Cons by simp
  qed
qed

lemma sweep_emissions:
  "fst (sweep now srv) = map expired_event (filter (is_stale now) (tasks (store srv)))"
  by (simp add: sweep_def Let_def expired_event_def)

lemma sweep_tasks:
  "tasks (store (snd (sweep now srv))) =
     map (\<lambda>t. if is_stale now t then free_task t else t) (tasks (store srv))"
proof (cases "filter (is_stale now) (tasks (store srv)) = []")
  case True
  then have "\<forall>t \<in> set (tasks (store srv)). \<not> is_stale now t"
    by (simp add: filter_empty_conv)
  then have "map (\<lambda>t. if is_stale now t then free_task t else t) (tasks (store srv)) =
      tasks (store srv)"
    by (simp add: map_idI)
  then show ?thesis using True by (simp add: sweep_def)
next
  case False
  then show ?thesis by (simp add: sweep_def Let_def)
qed

lemma events_for_task:
  assumes "distinct (map task_id ts)" "t \<in> set ts"
  shows "filter (\<lambda>e. payload e = JObj [(''taskId'', JId (task_id t))])
           (map expired_event (filter (is_stale now) ts)) =
         (if is_stale now t then [expired_event t] else [])"
proof -
  have "filter (\<lambda>e. payload e = JObj [(''taskId'', JId (task_id t))])
           (map expired_event (filter (is_stale now) ts)) =
        map expired_event (filter (\<lambda>x. is_stale now x \<and> task_id x = task_id t) ts)"
    by (simp add: filter_map o_def expired_event_def conj_commute)
  then show ?thesis
    using filter_same_id [OF assms, of "is_stale now"] by simp
qed

text \<open>
  Claim C7. Let the ids of the stored tasks be distinct, as the ids of a collection are,
  and let \<open>t\<close> be a stored task that is locked since \<open>s\<close>. One run of the cleanup at time
  \<open>now\<close>
  \<^item> stores \<open>t\<close> with its three lock fields cleared and emits, to every connected socket,
    exactly one \<^verbatim>\<open>edit_session_expired\<close> event for \<open>t\<close>, when the lock is older than five
    minutes;
  \<^item> leaves \<open>t\<close> as it is and emits no event for it, when the lock is five minutes old or
    younger.
  The cleanup takes no request: it depends on the time and the stored tasks only.
\<close>

theorem sweep_expires:
  assumes ids: "distinct (map task_id (tasks (store srv)))"
    and mem: "t \<in> set (tasks (store srv))"
    and locked: "isBeingEdited t" "editStartTime t = Some s"
  shows "(5 * 60 * 1000 < now - s \<longrightarrow>
            findTask (task_id t) (tasks (store (snd (sweep now srv)))) = Some (free_task t) \<and>
            filter (\<lambda>e. payload e = JObj [(''taskId'', JId (task_id t))]) (fst (sweep now srv)) =
              [\<lparr>target_of = Everyone, event = ''edit_session_expired'',
                payload = JObj [(''taskId'', JId (task_id t))]\<rparr>])
       \<and> (now - s \<le> 5 * 60 * 1000 \<longrightarrow>
            findTask (task_id t) (tasks (store (snd (sweep now srv)))) = Some t \<and>
            filter (\<lambda>e. payload e = JObj [(''taskId'', JId (task_id t))]) (fst (sweep now srv)) = [])
       \<and> \<not> isBeingEdited (free_task t) \<and> editedBy (free_task t) = None
       \<and> editStartTime (free_task t) = None"
proof -
  have stale: "is_stale now t \<longleftrightarrow> 5 * 60 * 1000 < now - s"
    using locked by (auto simp: is_stale_def staleTimeout_def)
  have found: "findTask (task_id t) (tasks (store srv)) = Some t"
    using ids mem by (rule findTask_distinct)
  have after: "findTask (task_id t) (tasks (store (snd (sweep now srv)))) =
      Some (if is_stale now t then free_task t else t)"
    by (simp add: sweep_tasks findTask_map free_task_def found)
  have evs: "filter (\<lambda>e. payload e = JObj [(''taskId'', JId (task_id t))]) (fst (sweep now srv)) =
      (if is_stale now t then [expired_event t] else [])"
    by (simp add: sweep_emissions events_for_task [OF ids mem])
  show ?thesis
    using stale after evs by (auto simp: expired_event_def free_task_def)
qed

theorem sweep_expires_witness:
  "distinct (map task_id (tasks (store locked_server))) \<and>
   locked_task \<in> set (tasks (store locked_server)) \<and>
   isBeingEdited locked_task \<and> editStartTime locked_task = Some 1000 \<and>
   sweep 302000 locked_server =
     ([\<lparr>target_of = Everyone, event = ''edit_session_expired'',
        payload = JObj [(''taskId'', JId 7)]\<rparr>],
      locked_server\<lparr>store := locked_db\<lparr>tasks := [plain_task]\<rparr>\<rparr>) \<and>
   findTask 7 (tasks (store (snd (sweep 302000 locked_server)))) = Some plain_task \<and>
   sweep 301000 locked_server = ([], locked_server) \<and>
   findTask 7 (tasks (store (snd (sweep 301000 locked_server)))) = Some locked_task"
proof -
  have h: "distinct (map task_id (tasks (store locked_server)))"
    "locked_task \<in> set (tasks (store locked_server))"
    "isBeingEdited locked_task" "editStartTime locked_task = Some 1000"
    by (simp_all add: example_defs)
  note a = sweep_expires [OF h, of 302000] and b = sweep_expires [OF h, of 301000]
  have i: "task_id locked_task = 7" "free_task locked_task = plain_task"
    by (simp_all add: example_defs free_task_def)
  have r1: "sweep 302000 locked_server =
     ([\<lparr>target_of = Everyone, event = ''edit_session_expired'',
        payload = JObj [(''taskId'', JId 7)]\<rparr>],
      locked_server\<lparr>store := locked_db\<lparr>tasks := [plain_task]\<rparr>\<rparr>)"
    by (simp add: sweep_def is_stale_def staleTimeout_def free_task_def expired_event_def
        Let_def example_defs)
  have r2: "sweep 301000 locked_server = ([], locked_server)"
    by (simp add: sweep_def is_stale_def staleTimeout_def Let_def example_defs)
  have "findTask 7 (tasks (store (snd (sweep 302000 locked_server)))) = Some plain_task"
    using a i by simp
  moreover have "findTask 7 (tasks (store (snd (sweep 301000 locked_server)))) = Some locked_task"
    using b i by simp
  ultimately show ?thesis using h r1 r2 by simp
qed

section \<open>Coherence of the lock fields\<close>

lemma list_all_save_task: "list_all P ts \<Longrightarrow> P t \<Longrightarrow> list_all P (save_task t ts)"
  by (induction ts) simp_all

lemma list_all_remove_task: "list_all P ts \<Longrightarrow> list_all P (remove_task i ts)"
  by (induction ts) simp_all

lemma list_all_updateOne:
  "list_all P ts \<Longrightarrow> (\<And>x. P x \<Longrightarrow> P (f x)) \<Longrightarrow> list_all P (updateOne i f ts)"
  by (induction ts) simp_all

lemma list_all_find: "list_all P ts \<Longrightarrow> findTask i ts = Some t \<Longrightarrow> P t"
  by (auto simp: list_all_iff dest: findTask_mem)

lemma coherent_take_lock: "lock_coherent (take_lock now u t)"
  by (simp add: lock_coherent_def take_lock_def)

lemma coherent_free_task: "lock_coherent (free_task t)"
  by (simp add: lock_coherent_def free_task_def)

lemma coherent_finish_update: "lock_coherent (finish_update u t)"
  by (simp add: lock_coherent_def finish_update_def)

lemma coherent_reorder_write: "lock_coherent t \<Longrightarrow> lock_coherent (reorder_write u it t)"
  by (simp add: lock_coherent_def reorder_write_def)

lemma start_edit_coherent:
  "list_all lock_coherent (tasks d) \<Longrightarrow> list_all lock_coherent (tasks (snd (start_edit now u p d)))"
  by (auto simp: start_edit_def list_all_save_task coherent_take_lock
      split: id_param.splits option.splits)

lemma end_edit_coherent:
  "list_all lock_coherent (tasks d) \<Longrightarrow> list_all lock_coherent (tasks (snd (end_edit u p d)))"
  by (auto simp: end_edit_def list_all_save_task coherent_free_task
      split: id_param.splits option.splits)

lemma update_task_coherent:
  "list_all lock_coherent (tasks d) \<Longrightarrow>
   list_all lock_coherent (tasks (snd (update_task now u p ups d)))"
  by (auto simp: update_task_def Let_def list_all_save_task coherent_finish_update
      split: id_param.splits option.splits)

lemma create_task_coherent:
  "list_all lock_coherent (tasks d) \<Longrightarrow>
   list_all lock_coherent (tasks (snd (create_task new_id u b d)))"
  by (auto simp: create_task_def Let_def lock_coherent_def
      split: id_param.splits option.splits prod.splits)

lemma delete_task_coherent:
  "list_all lock_coherent (tasks d) \<Longrightarrow> list_all lock_coherent (tasks (snd (delete_task u p d)))"
  by (auto simp: delete_task_def list_all_remove_task split: id_param.splits option.splits)

lemma smart_assign_coherent:
  assumes "list_all lock_coherent (tasks d)"
  shows "list_all lock_coherent (tasks (snd (smart_assign u p d)))"
proof -
  have "\<And>i t x. findTask i (tasks d) = Some t \<Longrightarrow>
      lock_coherent (t\<lparr>assignedTo := x, lastModifiedBy := Some (user_id u),
                       version := js_add1 (version t)\<rparr>)"
    using list_all_find [OF assms] by (simp add: lock_coherent_def)
  then show ?thesis
    using assms
    by (auto simp: smart_assign_def Let_def list_all_save_task
        split: id_param.splits option.splits prod.splits if_splits)
qed

lemma reorder_op_coherent:
  "list_all lock_coherent ts \<Longrightarrow> list_all lock_coherent (reorder_op u ts it)"
  by (cases "r_id it") (simp_all add: reorder_op_def list_all_updateOne coherent_reorder_write)

lemma foldl_reorder_op_coherent:
  "list_all lock_coherent ts \<Longrightarrow> list_all lock_coherent (foldl (reorder_op u) ts items)"
  by (induction items arbitrary: ts) (simp_all add: reorder_op_coherent)

lemma reorder_coherent:
  "list_all lock_coherent (tasks d) \<Longrightarrow>
   list_all lock_coherent (tasks (snd (reorder b u body d)))"
  by (auto simp: reorder_def foldl_reorder_op_coherent split: option.splits)

lemma sweep_coherent:
  "coherent srv \<Longrightarrow> coherent (snd (sweep now srv))"
  by (auto simp: coherent_def sweep_tasks list_all_iff coherent_free_task)

lemma on_connection_tasks: "tasks (store (snd (on_connection now s srv))) = tasks (store srv)"
  by (simp add: on_connection_def Let_def set_presence_def)

lemma on_disconnect_tasks: "tasks (store (snd (on_disconnect now s srv))) = tasks (store srv)"
  by (simp add: on_disconnect_def Let_def set_presence_def)

lemma step_coherent: "coherent srv \<Longrightarrow> coherent (step srv r)"
proof (cases r)
  case (Connect now s)
  then show "coherent srv \<Longrightarrow> coherent (step srv r)"
    by (simp add: coherent_def on_connection_tasks)
next
  case (Disconnect now s)
  then show "coherent srv \<Longrightarrow> coherent (step srv r)"
    by (simp add: coherent_def on_disconnect_tasks)
next
  case (Sweep now)
  then show "coherent srv \<Longrightarrow> coherent (step srv r)"
    by (simp add: sweep_coherent)
qed (simp_all add: coherent_def via_route_def create_task_coherent update_task_coherent
      delete_task_coherent smart_assign_coherent start_edit_coherent end_edit_coherent
      reorder_coherent)

lemma run_coherent: "coherent srv \<Longrightarrow> coherent (run srv rs)"
  unfolding run_def by (induction rs arbitrary: srv) (simp_all add: step_coherent)

text \<open>
  Claim C8. A server is coherent when, for each of its tasks, \<open>isBeingEdited\<close> is false
  exactly when \<open>editedBy\<close> is null, and \<open>editedBy\<close> is null exactly when \<open>editStartTime\<close>
  is null. Every request (create, update, delete, smart-assign, start-edit, end-edit,
  reorder, the socket events and the cleanup) takes a coherent server to a coherent
  server, and every state reached by a run of requests from a server with no task is
  coherent.
\<close>

theorem lock_fields_coherent:
  "(coherent srv \<longrightarrow> coherent (step srv r))
   \<and> (tasks (store srv0) = [] \<longrightarrow> coherent (run srv0 rs))
   \<and> (coherent srv \<longleftrightarrow>
        (\<forall>t \<in> set (tasks (store srv)).
            (\<not> isBeingEdited t \<longleftrightarrow> editedBy t = None) \<and>
            (editedBy t = None \<longleftrightarrow> editStartTime t = None)))"
proof (intro conjI impI)
  assume "coherent srv" then show "coherent (step srv r)" by (rule step_coherent)
next
  assume "tasks (store srv0) = []"
  then have "coherent srv0" by (simp add: coherent_def)
  then show "coherent (run srv0 rs)" by (rule run_coherent)
next
  show "coherent srv \<longleftrightarrow>
        (\<forall>t \<in> set (tasks (store srv)).
            (\<not> isBeingEdited t \<longleftrightarrow> editedBy t = None) \<and>
            (editedBy t = None \<longleftrightarrow> editStartTime t = None))"
    by (simp add: coherent_def list_all_iff lock_coherent_def)
qed

lemma create_ship:
  "create_task 7 alice ship_body (store empty_server) =
     (Inr (Task_Created plain_task),
      plain_db\<lparr>activities :=
        [\<lparr>action = ''create'', act_taskId = Some 7, act_userId = Some 1,
          details = [],
          act_description = ''alice created task '' @ quoted ''Ship release''\<rparr>]\<rparr>)"
  by (simp add: create_task_def empty_server_def ship_body_def findUser_def findTask_def
      next_order_def validate_doc_def valid_ship trim_ship valid_description_def
      valid_status_def valid_priority_def logActivity_def valid_activity_def
      activity_actions_def details_paths_def quoted_def Let_def example_defs)

lemma run_example:
  "tasks (store (run empty_server [Create 7 alice ship_body, Start_Edit 1000 alice (Oid 7)])) =
     [locked_task]"
proof -
  let ?d = "plain_db\<lparr>activities :=
        [\<lparr>action = ''create'', act_taskId = Some 7, act_userId = Some 1,
          details = [],
          act_description = ''alice created task '' @ quoted ''Ship release''\<rparr>]\<rparr>"
  have f: "findTask 7 (tasks ?d) = Some plain_task"
    by (simp add: findTask_def example_defs)
  have "tasks (snd (start_edit 1000 alice (Oid 7) ?d)) = [locked_task]"
    by (subst start_edit_found [OF f])
       (simp add: free_plain validate_plain take_lock_def plain_db_def locked_task_def alice_def)
  then show ?thesis
    by (simp add: run_def via_route_def create_ship)
qed

theorem lock_fields_coherent_witness:
  "tasks (store empty_server) = [] \<and>
   tasks (store (run empty_server [Create 7 alice ship_body, Start_Edit 1000 alice (Oid 7)])) =
     [locked_task] \<and>
   coherent (run empty_server [Create 7 alice ship_body, Start_Edit 1000 alice (Oid 7)]) \<and>
   coherent locked_server \<and>
   coherent (step locked_server (Update 2000 alice (Oid 7) [Set_isBeingEdited True])) \<and>
   coherent (step locked_server (Sweep 302000))"
proof -
  have e: "tasks (store empty_server) = []" by (simp add: empty_server_def)
  have l: "coherent locked_server"
    by (simp add: coherent_def lock_coherent_def example_defs)
  note a = lock_fields_coherent [of locked_server "Update 2000 alice (Oid 7) [Set_isBeingEdited True]"
      empty_server "[Create 7 alice ship_body, Start_Edit 1000 alice (Oid 7)]"]
  note b = lock_fields_coherent [of locked_server "Sweep 302000" empty_server "[]"]
  show ?thesis using e l a b run_example by simp
qed

section \<open>Choosing the assignee\<close>

lemma selectAssignee_snoc:
  "selectAssignee (us @ [x]) c = consider_user c (selectAssignee us c) x"
  by (simp add: selectAssignee_def)

lemma selectAssignee_first_min:
  "us \<noteq> [] \<Longrightarrow>
   \<exists>k < length us.
      selectAssignee us c = (enat (userTaskCount c (us ! k)), Some (us ! k)) \<and>
      (\<forall>j < length us. userTaskCount c (us ! k) \<le> userTaskCount c (us ! j)) \<and>
      (\<forall>j < k. userTaskCount c (us ! k) < userTaskCount c (us ! j))"
proof (induction us rule: rev_induct)
  case Nil
  then show ?case by simp
next
  case (snoc x us)
  show ?case
  proof (cases "us = []")
    case True
    then have "selectAssignee (us @ [x]) c = (enat (userTaskCount c x), Some x)"
      by (simp add: selectAssignee_def consider_user_def)
    then show ?thesis using True by simp
  next
    case False
    from snoc.IH [OF False] obtain k where k: "k < length us"
      and sel: "selectAssignee us c = (enat (userTaskCount c (us ! k)), Some (us ! k))"
      and least: "\<forall>j < length us. userTaskCount c (us ! k) \<le> userTaskCount c (us ! j)"
      and first: "\<forall>j < k. userTaskCount c (us ! k) < userTaskCount c (us ! j)"
      by blast
    show ?thesis
    proof (cases "userTaskCount c x < userTaskCount c (us ! k)")
      case True
      then have "selectAssignee (us @ [x]) c = (enat (userTaskCount c x), Some x)"
        by (simp add: selectAssignee_snoc sel consider_user_def)
      moreover have "\<forall>j < length (us @ [x]).
          userTaskCount c x \<le> userTaskCount c ((us @ [x]) ! j)"
        using True least by (auto simp: nth_append less_Suc_eq intro: order_trans less_imp_le)
      moreover have "\<forall>j < length us. userTaskCount c x < userTaskCount c ((us @ [x]) ! j)"
        using True least by (auto simp: nth_append intro: less_le_trans)
      ultimately show ?thesis
        by (intro exI [of _ "length us"]) simp
    next
      case False
      then have "selectAssignee (us @ [x]) c =
          (enat (userTaskCount c (us ! k)), Some (us ! k))"
        by (simp add: selectAssignee_snoc sel consider_user_def)
      moreover have "\<forall>j < length (us @ [x]).
          userTaskCount c (us ! k) \<le> userTaskCount c ((us @ [x]) ! j)"
        using False least by (auto simp: nth_append less_Suc_eq)
      moreover have "\<forall>j < k. userTaskCount c (us ! k) < userTaskCount c ((us @ [x]) ! j)"
        using first k by (simp add: nth_append)
      ultimately show ?thesis
        using k by (intro exI [of _ k]) (simp add: nth_append)
    qed
  qed
qed

lemma foldl_count_in:
  "(case foldl count_in m ts a of None \<Rightarrow> 0 | Some c \<Rightarrow> c) =
   (case m a of None \<Rightarrow> 0 | Some c \<Rightarrow> c) + length (filter (\<lambda>t. assignedTo t = a) ts)"
  by (induction ts arbitrary: m) (auto simp: count_in_def split: option.splits)

lemma userTaskCount_getTaskCounts:
  "userTaskCount (getTaskCounts ts) x =
     length (filter (\<lambda>t. (status t = ''todo'' \<or> status t = ''in-progress'') \<and>
                          assignedTo t = user_id x) ts)"
proof -
  have "userTaskCount (getTaskCounts ts) x =
      length (filter (\<lambda>t. assignedTo t = user_id x)
                (filter (\<lambda>t. status t \<in> set [''todo'', ''in-progress'']) ts))"
    unfolding userTaskCount_def getTaskCounts_def by (simp only: foldl_count_in) simp
  also have "\<dots> = length (filter (\<lambda>t. (status t = ''todo'' \<or> status t = ''in-progress'') \<and>
                          assignedTo t = user_id x) ts)"
    by (simp add: conj_commute)
  finally show ?thesis .
qed

text \<open>
  Claim C9. Over a non-empty list of users, the selection returns the user at the first
  position whose count is least: no user has a smaller count, and every user before it
  has a strictly larger one. Over the empty list it returns no user, and the
  smart-assign route then fails with the reply that no users are available, writing
  nothing; with users it assigns the task to the selected one, unless the stored
  document fails a validator of the schema, which makes the save fail and the reply 500.
  The count of a user is
  the number of tasks in status todo or in-progress that are assigned to it, a user
  with no entry in the counts counting as 0. The selection is a function of the users
  and the counts, so the same input gives the same user.
\<close>

theorem selectAssignee_greedy_min:
  "(us \<noteq> [] \<longrightarrow>
      (\<exists>k < length us.
          selectAssignee us c = (enat (userTaskCount c (us ! k)), Some (us ! k)) \<and>
          (\<forall>j < length us. userTaskCount c (us ! k) \<le> userTaskCount c (us ! j)) \<and>
          (\<forall>j < k. userTaskCount c (us ! k) < userTaskCount c (us ! j))))
   \<and> selectAssignee [] c = (\<infinity>, None)
   \<and> (findTask i (tasks d) = Some t \<and> users d = [] \<longrightarrow>
        smart_assign u (Oid i) d = (Inl No_Users_Available, d))
   \<and> (findTask i (tasks d) = Some t \<and> users d \<noteq> [] \<longrightarrow>
        (\<exists>m sel. selectAssignee (users d) (getTaskCounts (tasks d)) = (m, Some sel) \<and>
           fst (smart_assign u (Oid i) d) =
             (if validate_doc t
              then Inr (Task_Smart_Assigned
                          (t\<lparr>assignedTo := user_id sel, lastModifiedBy := Some (user_id u),
                             version := js_add1 (version t)\<rparr>) (username sel) m)
              else Inl Server_Error)))
   \<and> userTaskCount (getTaskCounts ts) x =
        length (filter (\<lambda>t. (status t = ''todo'' \<or> status t = ''in-progress'') \<and>
                             assignedTo t = user_id x) ts)"
proof (intro conjI impI)
  assume "us \<noteq> []"
  then show "\<exists>k < length us.
          selectAssignee us c = (enat (userTaskCount c (us ! k)), Some (us ! k)) \<and>
          (\<forall>j < length us. userTaskCount c (us ! k) \<le> userTaskCount c (us ! j)) \<and>
          (\<forall>j < k. userTaskCount c (us ! k) < userTaskCount c (us ! j))"
    by (rule selectAssignee_first_min)
next
  show "selectAssignee [] c = (\<infinity>, None)" by (simp add: selectAssignee_def)
next
  assume "findTask i (tasks d) = Some t \<and> users d = []"
  then show "smart_assign u (Oid i) d = (Inl No_Users_Available, d)"
    by (simp add: smart_assign_found selectAssignee_def)
next
  assume a: "findTask i (tasks d) = Some t \<and> users d \<noteq> []"
  then obtain k where
    "selectAssignee (users d) (getTaskCounts (tasks d)) =
       (enat (userTaskCount (getTaskCounts (tasks d)) (users d ! k)), Some (users d ! k))"
    using selectAssignee_first_min [of "users d" "getTaskCounts (tasks d)"] by blast
  then show "\<exists>m sel. selectAssignee (users d) (getTaskCounts (tasks d)) = (m, Some sel) \<and>
           fst (smart_assign u (Oid i) d) =
             (if validate_doc t
              then Inr (Task_Smart_Assigned
                          (t\<lparr>assignedTo := user_id sel, lastModifiedBy := Some (user_id u),
                             version := js_add1 (version t)\<rparr>) (username sel) m)
              else Inl Server_Error)"
    using a by (simp add: smart_assign_found)
next
  show "userTaskCount (getTaskCounts ts) x =
        length (filter (\<lambda>t. (status t = ''todo'' \<or> status t = ''in-progress'') \<and>
                             assignedTo t = user_id x) ts)"
    by (rule userTaskCount_getTaskCounts)
qed

lemma loads:
  "userTaskCount sample_loads alice = 2" "userTaskCount sample_loads bob = 0"
  "userTaskCount sample_loads carol = 1"
  "userTaskCount tied_loads alice = 1" "userTaskCount tied_loads bob = 1"
  by (simp_all add: userTaskCount_def sample_loads_def tied_loads_def example_defs)

theorem selectAssignee_greedy_min_witness:
  "userTaskCount sample_loads alice = 2 \<and> userTaskCount sample_loads bob = 0 \<and>
   userTaskCount sample_loads carol = 1 \<and>
   selectAssignee [alice, bob, carol] sample_loads = (0, Some bob) \<and>
   userTaskCount tied_loads alice = 1 \<and> userTaskCount tied_loads bob = 1 \<and>
   selectAssignee [alice, bob] tied_loads = (1, Some alice) \<and>
   findTask 7 (tasks nobody_db) = Some plain_task \<and> users nobody_db = [] \<and>
   smart_assign bob (Oid 7) nobody_db = (Inl No_Users_Available, nobody_db) \<and>
   fst (smart_assign bob (Oid 7) plain_db) =
     Inr (Task_Smart_Assigned
            (plain_task\<lparr>assignedTo := 2, lastModifiedBy := Some 2, version := 2\<rparr>) ''bob'' 0) \<and>
   fst (smart_assign bob (Oid 7) archived_db) = Inl Server_Error"
proof -
  note w3 = selectAssignee_greedy_min [of "[alice]" tied_loads 7 archived_db
      "plain_task\<lparr>status := ''archived'', lastModifiedBy := Some 2, version := 2\<rparr>"
      bob "[]" alice]
  have "users archived_db \<noteq> []" by (simp add: archived_db_eq plain_db_def)
  with w3 findTask_archived not_valid_archived
  have arch: "fst (smart_assign bob (Oid 7) archived_db) = Inl Server_Error"
    by auto
  note w1 = selectAssignee_greedy_min [of "[alice, bob, carol]" sample_loads 7 nobody_db
      plain_task bob "[]" alice]
  note w2 = selectAssignee_greedy_min [of "[alice, bob]" tied_loads 7 plain_db
      plain_task bob "[]" alice]
  have n: "findTask 7 (tasks nobody_db) = Some plain_task" "users nobody_db = []"
    by (simp_all add: nobody_db_def findTask_def example_defs)
  have "\<exists>k < length [alice, bob, carol].
      selectAssignee [alice, bob, carol] sample_loads =
        (enat (userTaskCount sample_loads ([alice, bob, carol] ! k)),
         Some ([alice, bob, carol] ! k)) \<and>
      (\<forall>j < length [alice, bob, carol].
          userTaskCount sample_loads ([alice, bob, carol] ! k) \<le>
          userTaskCount sample_loads ([alice, bob, carol] ! j)) \<and>
      (\<forall>j < k. userTaskCount sample_loads ([alice, bob, carol] ! k) <
          userTaskCount sample_loads ([alice, bob, carol] ! j))"
    using conjunct1 [OF w1] by simp
  then obtain k where k: "k < length [alice, bob, carol]"
    and s: "selectAssignee [alice, bob, carol] sample_loads =
        (enat (userTaskCount sample_loads ([alice, bob, carol] ! k)),
         Some ([alice, bob, carol] ! k))"
    and least: "\<forall>j < length [alice, bob, carol].
        userTaskCount sample_loads ([alice, bob, carol] ! k) \<le>
        userTaskCount sample_loads ([alice, bob, carol] ! j)"
    by blast
  have "(1::nat) < length [alice, bob, carol]" by simp
  with least have "userTaskCount sample_loads ([alice, bob, carol] ! k) \<le>
      userTaskCount sample_loads ([alice, bob, carol] ! 1)" by blast
  then have "userTaskCount sample_loads ([alice, bob, carol] ! k) = 0"
    by (simp add: loads)
  with k have "k = 1"
    by (auto simp: less_Suc_eq loads)
  with s have first: "selectAssignee [alice, bob, carol] sample_loads = (0, Some bob)"
    by (simp add: loads zero_enat_def)
  have "\<exists>k < length [alice, bob].
      selectAssignee [alice, bob] tied_loads =
        (enat (userTaskCount tied_loads ([alice, bob] ! k)), Some ([alice, bob] ! k)) \<and>
      (\<forall>j < length [alice, bob].
          userTaskCount tied_loads ([alice, bob] ! k) \<le>
          userTaskCount tied_loads ([alice, bob] ! j)) \<and>
      (\<forall>j < k. userTaskCount tied_loads ([alice, bob] ! k) <
          userTaskCount tied_loads ([alice, bob] ! j))"
    using conjunct1 [OF w2] by simp
  then obtain k' where k': "k' < length [alice, bob]"
    and s': "selectAssignee [alice, bob] tied_loads =
        (enat (userTaskCount tied_loads ([alice, bob] ! k')), Some ([alice, bob] ! k'))"
    and first': "\<forall>j < k'. userTaskCount tied_loads ([alice, bob] ! k') <
        userTaskCount tied_loads ([alice, bob] ! j)"
    by blast
  have "k' = 0"
  proof (rule ccontr)
    assume "k' \<noteq> 0"
    with k' have "k' = 1" by (auto simp: less_Suc_eq)
    with first' have "userTaskCount tied_loads ([alice, bob] ! 1) <
        userTaskCount tied_loads ([alice, bob] ! 0)" by blast
    then show False by (simp add: loads)
  qed
  with s' have tie: "selectAssignee [alice, bob] tied_loads = (1, Some alice)"
    by (simp add: loads one_enat_def)
  have none: "smart_assign bob (Oid 7) nobody_db = (Inl No_Users_Available, nobody_db)"
    using w1 n by simp
  show ?thesis
    using loads first tie n none smart_assign_plain arch by simp
qed

section \<open>The activity of a reorder\<close>

lemma reorder_activities: "activities (snd (reorder b u body d)) = activities d"
  by (simp add: reorder_def logActivity_no_task split: option.splits)

text \<open>
  Claim C10. The reorder route passes \<^verbatim>\<open>null\<close> as the task of the activity it logs. The
  activity schema requires a task, so the activity is not valid, the save fails, and
  \<^verbatim>\<open>logActivity\<close> swallows the failure: whatever the request, the activity log after
  the reorder is the log before it. The route still reports success whenever the body
  is an array with no malformed id that the driver accepts as a batch, and then writes
  the tasks. The same activity with a task would be valid.
\<close>

theorem reorder_never_logs:
  "activities (snd (reorder b u body d)) = activities d
   \<and> (\<forall>items. body = Some items \<and> (\<forall>it \<in> set items. r_id it \<noteq> Malformed) \<and>
               (items \<noteq> [] \<or> \<not> b) \<longrightarrow>
          reorder b u body d =
            (Inr Tasks_Reordered, d\<lparr>tasks := foldl (reorder_op u) (tasks d) items\<rparr>))
   \<and> logActivity ''move'' None (Some (user_id u)) det desc acts = acts
   \<and> \<not> valid_activity \<lparr>action = ''move'', act_taskId = None, act_userId = Some (user_id u),
                          details = det, act_description = desc\<rparr>
   \<and> valid_activity \<lparr>action = ''move'', act_taskId = Some i, act_userId = Some (user_id u),
                      details = det, act_description = ''reordered''\<rparr>"
proof (intro conjI allI impI)
  show "activities (snd (reorder b u body d)) = activities d"
    by (rule reorder_activities)
next
  fix items
  assume a: "body = Some items \<and> (\<forall>it \<in> set items. r_id it \<noteq> Malformed) \<and>
             (items \<noteq> [] \<or> \<not> b)"
  then have "\<not> ((\<exists>it \<in> set items. r_id it = Malformed) \<or> (items = [] \<and> b))" by blast
  then show "reorder b u body d =
      (Inr Tasks_Reordered, d\<lparr>tasks := foldl (reorder_op u) (tasks d) items\<rparr>)"
    using a by (simp add: reorder_def logActivity_no_task)
next
  show "logActivity ''move'' None (Some (user_id u)) det desc acts = acts"
    by (rule logActivity_no_task)
qed (simp_all add: valid_activity_def activity_actions_def)

theorem reorder_never_logs_witness:
  "reorder False bob (Some [move_item]) plain_db =
     (Inr Tasks_Reordered,
      plain_db\<lparr>tasks := [plain_task\<lparr>status := ''done'', order := 3, lastModifiedBy := Some 2,
                                      version := 2\<rparr>]\<rparr>) \<and>
   activities (snd (reorder False bob (Some [move_item]) plain_db)) = [] \<and>
   activities (snd (update_task 0 bob (Oid 7) [Set_status ''done''] plain_db)) =
     [\<lparr>action = ''move'', act_taskId = Some 7, act_userId = Some 2,
       details = [(''field'', JStr ''status''), (''oldValue'', JStr ''todo''),
                  (''newValue'', JStr ''done''), (''previousStatus'', JStr ''todo''),
                  (''newStatus'', JStr ''done'')],
       act_description = ''bob moved task to done''\<rparr>]"
proof -
  note w = reorder_never_logs [of False bob "Some [move_item]" plain_db "[]" "[]" "[]" 7]
  have m: "\<forall>it \<in> set [move_item]. r_id it \<noteq> Malformed" by (simp add: move_item_def)
  have "reorder False bob (Some [move_item]) plain_db =
      (Inr Tasks_Reordered, plain_db\<lparr>tasks := foldl (reorder_op bob) (tasks plain_db) [move_item]\<rparr>)"
    using w m by blast
  then have r: "reorder False bob (Some [move_item]) plain_db =
     (Inr Tasks_Reordered,
      plain_db\<lparr>tasks := [plain_task\<lparr>status := ''done'', order := 3, lastModifiedBy := Some 2,
                                      version := 2\<rparr>]\<rparr>)"
    by (simp add: reorder_op_def reorder_write_def move_item_def example_defs)
  have a: "activities (snd (reorder False bob (Some [move_item]) plain_db)) = []"
    using w by (simp add: plain_db_def)
  have u: "activities (snd (update_task 0 bob (Oid 7) [Set_status ''done''] plain_db)) =
     [\<lparr>action = ''move'', act_taskId = Some 7, act_userId = Some 2,
       details = [(''field'', JStr ''status''), (''oldValue'', JStr ''todo''),
                  (''newValue'', JStr ''done''), (''previousStatus'', JStr ''todo''),
                  (''newStatus'', JStr ''done'')],
       act_description = ''bob moved task to done''\<rparr>]"
    by (simp add: update_task_found [OF findTask_plain] title_taken_def free_plain)
       (simp add: example_defs validate_doc_def valid_ship valid_description_def
          valid_status_def valid_priority_def finish_update_def
          logActivity_def valid_activity_def activity_actions_def details_paths_def)
  show ?thesis using r a u by simp
qed

end
